theory Spec2Isabelle
  imports Complex_Main "HOL-Library.Sublist"
begin

section \<open>The orchestrator of JavaScriptObfuscator.ts\<close>

text \<open>
  The class \<open>JavaScriptObfuscator\<close> sequences calls to its collaborators: the parser
  (\<open>EsprimaFacade.parse\<close>), the transformers runner, the code generator
  (\<open>escodegen.generate\<close>), the source map corrector, the random generator, the logger and
  the clock (\<open>Date.now\<close>). None of them is part of the file, so they are parameters of the
  model. Every method of the class becomes a function from a state to a result, a new
  state and the list of the calls it made, in the order it made them.
\<close>

subsection \<open>Enumerations\<close>

datatype TransformationStage =
    Preparing
  | DeadCodeInjection
  | ControlFlowFlattening
  | Converting
  | Obfuscating
  | Finalizing

datatype NodeTransformer =
    BlockStatementControlFlowTransformer
  | ClassDeclarationTransformer
  | CommentsTransformer
  | CustomNodesTransformer
  | DeadCodeInjectionTransformer
  | EvalCallExpressionTransformer
  | FunctionControlFlowTransformer
  | CatchClauseTransformer
  | FunctionDeclarationTransformer
  | FunctionTransformer
  | LabeledStatementTransformer
  | LiteralTransformer
  | MemberExpressionTransformer
  | MethodDefinitionTransformer
  | ObfuscatingGuardsTransformer
  | ObjectExpressionKeysTransformer
  | ObjectExpressionTransformer
  | ParentificationTransformer
  | StringArrayTransformer
  | TemplateLiteralTransformer
  | VariableDeclarationTransformer

text \<open>The members of \<open>LoggingMessage\<close> that the class uses.\<close>

datatype LoggingMessage =
    EmptySourceCode
  | ObfuscationCompleted
  | ObfuscationStarted
  | RandomGeneratorSeed
  | TransformationStage
  | Version

text \<open>
  The optional second argument of a logger method is a string or a number; a stage
  identifier is kept as the enumeration member it is.
\<close>

datatype LogValue =
    StringValue string
  | NumberValue real
  | StageValue TransformationStage

subsection \<open>Data\<close>

text \<open>The fields of \<open>IOptions\<close> that the class reads.\<close>

record IOptions =
  sourceMap :: bool
  deadCodeInjection :: bool
  controlFlowFlattening :: bool
  compact :: bool

text \<open>The object literal handed to \<open>EsprimaFacade.parse\<close>.\<close>

record ParseOptions =
  attachComment :: bool
  loc :: bool

text \<open>
  The fields of an \<open>ESTree.Program\<close> that the class reads. The field \<open>leadingComments\<close>
  is optional: \<open>None\<close> is an absent (undefined or null) field, \<open>Some cs\<close> an attached
  array, which is truthy in JavaScript also when it is empty.
\<close>

record 'n Program =
  node_type :: string
  body :: "'n list"
  leadingComments :: "'n list option"

text \<open>
  \<open>escodegen.GenerateOptions\<close>: every field is optional. The only field of \<open>format\<close>
  that the class sets is \<open>compact\<close>.
\<close>

record FormatOptions =
  format_compact :: bool

record GenerateOptions =
  comment :: "bool option"
  verbatim :: "string option"
  sourceMapWithCode :: "bool option"
  generate_sourceMap :: "string option"
  sourceContent :: "string option"
  format :: "FormatOptions option"

text \<open>
  The \<open>map\<close> field of what \<open>escodegen.generate\<close> returns: a mapping object, or null or
  undefined when there is none.
\<close>

datatype 'm RawMap =
    MapUndefined
  | MapNull
  | MapObject 'm

text \<open>
  \<open>IGeneratorOutput\<close>. The generator fills \<open>map\<close> with a raw mapping; \<open>generateCode\<close>
  overwrites it with a string.
\<close>

record 'a IGeneratorOutput =
  code :: string
  map_field :: 'a

subsection \<open>Calls and state\<close>

text \<open>
  One event per call to a collaborator, with its arguments and what it returned; a
  thrown value is \<open>Inl\<close>. \<open>Inspect\<close> is the read of the fields of the tree behind a
  reference. Trees are references (numbers); the objects behind them belong to the
  collaborators' world.
\<close>

datatype ('e, 'm, 'n, 'r) event =
    DateNow int
  | GetSeed LogValue
  | LogInfo LoggingMessage "LogValue option"
  | LogWarn LoggingMessage "LogValue option"
  | LogSuccess LoggingMessage "LogValue option"
  | Parse string ParseOptions "'e + nat"
  | Inspect nat "'n Program"
  | Transform nat "NodeTransformer list" TransformationStage "'e + nat"
  | Generate nat GenerateOptions "'e + 'm RawMap IGeneratorOutput"
  | Correct string string 'r

text \<open>
  The collaborators. The parser, the transformers runner and the generator may throw:
  these are the three failures of a run the specification names. They act on the world
  \<open>'w\<close>, which holds the syntax trees; \<open>node_at\<close> reads the tree behind a reference and
  \<open>isProgramNode\<close> is \<open>NodeGuards.isProgramNode\<close>. The methods of the logger return
  nothing and act on a state of the logger's own, \<open>'l\<close>. \<open>now n\<close> is the \<open>n\<close>-th
  reading of the clock \<open>Date.now\<close>, a whole number of milliseconds; nothing makes a
  later reading the larger one. \<open>toDouble\<close> is the rounding of the host's arithmetic: the
  JavaScript number that stands for a real number. \<open>version\<close> is
  \<open>packageJson.version\<close>, and \<open>toString\<close> is the method of the mapping object.
\<close>

record ('w, 'l, 'e, 'm, 'n, 'r) collaborators =
  now :: "nat \<Rightarrow> int"
  toDouble :: "real \<Rightarrow> real"
  version :: string
  getSeed :: "'w \<Rightarrow> LogValue \<times> 'w"
  info :: "LoggingMessage \<Rightarrow> LogValue option \<Rightarrow> 'l \<Rightarrow> 'l"
  warn :: "LoggingMessage \<Rightarrow> LogValue option \<Rightarrow> 'l \<Rightarrow> 'l"
  success :: "LoggingMessage \<Rightarrow> LogValue option \<Rightarrow> 'l \<Rightarrow> 'l"
  parse :: "string \<Rightarrow> ParseOptions \<Rightarrow> 'w \<Rightarrow> ('e + nat) \<times> 'w"
  node_at :: "'w \<Rightarrow> nat \<Rightarrow> 'n Program"
  isProgramNode :: "'n Program \<Rightarrow> bool"
  transform :: "nat \<Rightarrow> NodeTransformer list \<Rightarrow> TransformationStage \<Rightarrow> 'w \<Rightarrow> ('e + nat) \<times> 'w"
  generate :: "nat \<Rightarrow> GenerateOptions \<Rightarrow> 'w \<Rightarrow> ('e + 'm RawMap IGeneratorOutput) \<times> 'w"
  toString :: "'m \<Rightarrow> string"
  correct :: "string \<Rightarrow> string \<Rightarrow> 'w \<Rightarrow> 'r \<times> 'w"

text \<open>
  The state: the world, the logger's state, the number of clock readings taken, and the
  store of the option objects of \<open>generateCode\<close> (\<open>objs\<close>, with \<open>next_ref\<close> the next free
  reference). The static \<open>escodegenParams\<close> lives in that store.
\<close>

record ('w, 'l) state =
  world :: 'w
  logger :: 'l
  ticks :: nat
  objs :: "nat \<Rightarrow> GenerateOptions"
  next_ref :: nat

type_synonym ('a, 'w, 'l, 'e, 'm, 'n, 'r) action =
  "('w, 'l) state \<Rightarrow> ('e + 'a) \<times> ('w, 'l) state \<times> ('e, 'm, 'n, 'r) event list"

definition result_of :: "'x \<times> 's \<times> 't \<Rightarrow> 'x" where
  "result_of out = fst out"

definition state_of :: "'x \<times> 's \<times> 't \<Rightarrow> 's" where
  "state_of out = fst (snd out)"

definition events_of :: "'x \<times> 's \<times> 't \<Rightarrow> 't" where
  "events_of out = snd (snd out)"

text \<open>Sequencing: a thrown value ends the method; otherwise the next statement runs.\<close>

definition returns :: "'a \<Rightarrow> 's \<Rightarrow> ('e + 'a) \<times> 's \<times> 'v list" where
  "returns a s = (Inr a, s, [])"

definition andThen ::
  "('s \<Rightarrow> ('e + 'a) \<times> 's \<times> 'v list) \<Rightarrow> ('a \<Rightarrow> 's \<Rightarrow> ('e + 'b) \<times> 's \<times> 'v list)
   \<Rightarrow> 's \<Rightarrow> ('e + 'b) \<times> 's \<times> 'v list" where
  "andThen m f s =
     (case m s of
        (Inl e, s', tr) \<Rightarrow> (Inl e, s', tr)
      | (Inr a, s', tr) \<Rightarrow> (case f a s' of (r, s'', tr') \<Rightarrow> (r, s'', tr @ tr')))"

subsection \<open>Calls to the collaborators\<close>

definition Date_now ::
  "('w, 'l, 'e, 'm, 'n, 'r) collaborators \<Rightarrow> (int, 'w, 'l, 'e, 'm, 'n, 'r) action" where
  "Date_now c s =
     (Inr (now c (ticks s)), s\<lparr>ticks := Suc (ticks s)\<rparr>, [DateNow (now c (ticks s))])"

definition randomGenerator_getSeed ::
  "('w, 'l, 'e, 'm, 'n, 'r) collaborators \<Rightarrow> (LogValue, 'w, 'l, 'e, 'm, 'n, 'r) action" where
  "randomGenerator_getSeed c s =
     (case getSeed c (world s) of (v, w') \<Rightarrow> (Inr v, s\<lparr>world := w'\<rparr>, [GetSeed v]))"

definition logger_info ::
  "('w, 'l, 'e, 'm, 'n, 'r) collaborators \<Rightarrow> LoggingMessage \<Rightarrow> LogValue option
   \<Rightarrow> (unit, 'w, 'l, 'e, 'm, 'n, 'r) action" where
  "logger_info c msg v s = (Inr (), s\<lparr>logger := info c msg v (logger s)\<rparr>, [LogInfo msg v])"

definition logger_warn ::
  "('w, 'l, 'e, 'm, 'n, 'r) collaborators \<Rightarrow> LoggingMessage \<Rightarrow> LogValue option
   \<Rightarrow> (unit, 'w, 'l, 'e, 'm, 'n, 'r) action" where
  "logger_warn c msg v s = (Inr (), s\<lparr>logger := warn c msg v (logger s)\<rparr>, [LogWarn msg v])"

definition logger_success ::
  "('w, 'l, 'e, 'm, 'n, 'r) collaborators \<Rightarrow> LoggingMessage \<Rightarrow> LogValue option
   \<Rightarrow> (unit, 'w, 'l, 'e, 'm, 'n, 'r) action" where
  "logger_success c msg v s =
     (Inr (), s\<lparr>logger := success c msg v (logger s)\<rparr>, [LogSuccess msg v])"

definition EsprimaFacade_parse ::
  "('w, 'l, 'e, 'm, 'n, 'r) collaborators \<Rightarrow> string \<Rightarrow> ParseOptions
   \<Rightarrow> (nat, 'w, 'l, 'e, 'm, 'n, 'r) action" where
  "EsprimaFacade_parse c sourceCode po s =
     (case parse c sourceCode po (world s) of
        (res, w') \<Rightarrow> (res, s\<lparr>world := w'\<rparr>, [Parse sourceCode po res]))"

definition readProgram ::
  "('w, 'l, 'e, 'm, 'n, 'r) collaborators \<Rightarrow> nat \<Rightarrow> ('n Program, 'w, 'l, 'e, 'm, 'n, 'r) action" where
  "readProgram c astTree s =
     (Inr (node_at c (world s) astTree), s, [Inspect astTree (node_at c (world s) astTree)])"

definition transformersRunner_transform ::
  "('w, 'l, 'e, 'm, 'n, 'r) collaborators \<Rightarrow> nat \<Rightarrow> NodeTransformer list \<Rightarrow> TransformationStage
   \<Rightarrow> (nat, 'w, 'l, 'e, 'm, 'n, 'r) action" where
  "transformersRunner_transform c astTree transformers stage s =
     (case transform c astTree transformers stage (world s) of
        (res, w') \<Rightarrow> (res, s\<lparr>world := w'\<rparr>, [Transform astTree transformers stage res]))"

text \<open>
  The generator is handed a reference to an option object that nothing else refers to;
  it receives what the object holds at the call.
\<close>

definition escodegen_generate ::
  "('w, 'l, 'e, 'm, 'n, 'r) collaborators \<Rightarrow> nat \<Rightarrow> nat
   \<Rightarrow> ('m RawMap IGeneratorOutput, 'w, 'l, 'e, 'm, 'n, 'r) action" where
  "escodegen_generate c astTree arg s =
     (case generate c astTree (objs s arg) (world s) of
        (res, w') \<Rightarrow> (res, s\<lparr>world := w'\<rparr>, [Generate astTree (objs s arg) res]))"

definition sourceMapCorrector_correct ::
  "('w, 'l, 'e, 'm, 'n, 'r) collaborators \<Rightarrow> string \<Rightarrow> string \<Rightarrow> ('r, 'w, 'l, 'e, 'm, 'n, 'r) action" where
  "sourceMapCorrector_correct c obfuscatedCode sourceMapText s =
     (case correct c obfuscatedCode sourceMapText (world s) of
        (res, w') \<Rightarrow> (Inr res, s\<lparr>world := w'\<rparr>, [Correct obfuscatedCode sourceMapText res]))"

subsection \<open>Option objects\<close>

text \<open>
  An object literal and an object spread allocate a fresh object; an assignment to a
  field updates the object behind the reference.
\<close>

definition newObject :: "GenerateOptions \<Rightarrow> (nat, 'w, 'l, 'e, 'm, 'n, 'r) action" where
  "newObject v s =
     (Inr (next_ref s), s\<lparr>objs := (objs s)(next_ref s := v), next_ref := Suc (next_ref s)\<rparr>, [])"

definition spread :: "nat \<Rightarrow> (nat, 'w, 'l, 'e, 'm, 'n, 'r) action" where
  "spread src s = newObject (objs s src) s"

definition assign ::
  "nat \<Rightarrow> (GenerateOptions \<Rightarrow> GenerateOptions) \<Rightarrow> (unit, 'w, 'l, 'e, 'm, 'n, 'r) action" where
  "assign ref f s = (Inr (), s\<lparr>objs := (objs s)(ref := f (objs s ref))\<rparr>, [])"

text \<open>The static \<open>escodegenParams\<close>: its reference and its initial value.\<close>

definition escodegenParams_ref :: nat where
  "escodegenParams_ref = 0"

definition escodegenParams :: GenerateOptions where
  "escodegenParams =
     \<lparr> comment = Some True,
       verbatim = Some ''x-verbatim-property'',
       sourceMapWithCode = Some True,
       generate_sourceMap = None,
       sourceContent = None,
       format = None \<rparr>"

definition transformersList :: "NodeTransformer list" where
  "transformersList =
     [ BlockStatementControlFlowTransformer,
       ClassDeclarationTransformer,
       CommentsTransformer,
       CustomNodesTransformer,
       DeadCodeInjectionTransformer,
       EvalCallExpressionTransformer,
       FunctionControlFlowTransformer,
       CatchClauseTransformer,
       FunctionDeclarationTransformer,
       FunctionTransformer,
       LabeledStatementTransformer,
       LiteralTransformer,
       MemberExpressionTransformer,
       MethodDefinitionTransformer,
       ObfuscatingGuardsTransformer,
       ObjectExpressionKeysTransformer,
       ObjectExpressionTransformer,
       ParentificationTransformer,
       StringArrayTransformer,
       TemplateLiteralTransformer,
       VariableDeclarationTransformer ]"

subsection \<open>Numbers\<close>

text \<open>
  A JavaScript number is a double. Subtraction and division return the exact result,
  rounded by the host.
\<close>

definition number_minus ::
  "('w, 'l, 'e, 'm, 'n, 'r) collaborators \<Rightarrow> real \<Rightarrow> real \<Rightarrow> real" where
  "number_minus c a b = toDouble c (a - b)"

definition number_divide ::
  "('w, 'l, 'e, 'm, 'n, 'r) collaborators \<Rightarrow> real \<Rightarrow> real \<Rightarrow> real" where
  "number_divide c a b = toDouble c (a / b)"

subsection \<open>The methods of the class\<close>

definition parseCode ::
  "('w, 'l, 'e, 'm, 'n, 'r) collaborators \<Rightarrow> IOptions \<Rightarrow> string
   \<Rightarrow> (nat, 'w, 'l, 'e, 'm, 'n, 'r) action" where
  "parseCode c options sourceCode =
     EsprimaFacade_parse c sourceCode \<lparr> attachComment = True, loc = sourceMap options \<rparr>"

definition runTransformationStage ::
  "('w, 'l, 'e, 'm, 'n, 'r) collaborators \<Rightarrow> nat \<Rightarrow> TransformationStage
   \<Rightarrow> (nat, 'w, 'l, 'e, 'm, 'n, 'r) action" where
  "runTransformationStage c astTree transformationStage =
     andThen (logger_info c TransformationStage (Some (StageValue transformationStage))) (\<lambda>_.
     transformersRunner_transform c astTree transformersList transformationStage)"

text \<open>
  \<open>!astTree.body.length\<close> holds when the body is empty, \<open>!astTree.leadingComments\<close> when
  the field is absent.
\<close>

definition isEmptyAstTree ::
  "('w, 'l, 'e, 'm, 'n, 'r) collaborators \<Rightarrow> 'n Program \<Rightarrow> bool" where
  "isEmptyAstTree c node =
     (isProgramNode c node \<and> length (body node) = 0 \<and> leadingComments node = None)"

definition transformAstTree ::
  "('w, 'l, 'e, 'm, 'n, 'r) collaborators \<Rightarrow> IOptions \<Rightarrow> nat
   \<Rightarrow> (nat, 'w, 'l, 'e, 'm, 'n, 'r) action" where
  "transformAstTree c options astTree =
     andThen (readProgram c astTree) (\<lambda>node.
     if isEmptyAstTree c node then
       andThen (logger_warn c EmptySourceCode None) (\<lambda>_.
       returns astTree)
     else
       andThen (runTransformationStage c astTree Preparing) (\<lambda>astTree.
       andThen (if deadCodeInjection options
                then runTransformationStage c astTree DeadCodeInjection
                else returns astTree) (\<lambda>astTree.
       andThen (if controlFlowFlattening options
                then runTransformationStage c astTree ControlFlowFlattening
                else returns astTree) (\<lambda>astTree.
       andThen (runTransformationStage c astTree Converting) (\<lambda>astTree.
       andThen (runTransformationStage c astTree Obfuscating) (\<lambda>astTree.
       andThen (runTransformationStage c astTree Finalizing) (\<lambda>astTree.
       returns astTree)))))))"

definition generateCode ::
  "('w, 'l, 'e, 'm, 'n, 'r) collaborators \<Rightarrow> IOptions \<Rightarrow> string \<Rightarrow> nat
   \<Rightarrow> (string IGeneratorOutput, 'w, 'l, 'e, 'm, 'n, 'r) action" where
  "generateCode c options sourceCode astTree =
     andThen (spread escodegenParams_ref) (\<lambda>escodegenParams.
     andThen (if sourceMap options
              then andThen (assign escodegenParams (\<lambda>p. p\<lparr>generate_sourceMap := Some ''sourceMap''\<rparr>)) (\<lambda>_.
                   assign escodegenParams (\<lambda>p. p\<lparr>sourceContent := Some sourceCode\<rparr>))
              else returns ()) (\<lambda>_.
     andThen (spread escodegenParams) (\<lambda>arg.
     andThen (assign arg (\<lambda>p. p\<lparr>format := Some \<lparr> format_compact = compact options \<rparr>\<rparr>)) (\<lambda>_.
     andThen (escodegen_generate c astTree arg) (\<lambda>generatorOutput.
     returns \<lparr> code = code generatorOutput,
               map_field = (case map_field generatorOutput of
                              MapObject m \<Rightarrow> toString c m
                            | _ \<Rightarrow> '''') \<rparr>)))))"

definition getObfuscationResult ::
  "('w, 'l, 'e, 'm, 'n, 'r) collaborators \<Rightarrow> string IGeneratorOutput
   \<Rightarrow> ('r, 'w, 'l, 'e, 'm, 'n, 'r) action" where
  "getObfuscationResult c generatorOutput =
     sourceMapCorrector_correct c (code generatorOutput) (map_field generatorOutput)"

text \<open>\<open>(Date.now() - timeStart) / 1000\<close>, with \<open>timeEnd\<close> the second reading.\<close>

definition obfuscationTime ::
  "('w, 'l, 'e, 'm, 'n, 'r) collaborators \<Rightarrow> int \<Rightarrow> int \<Rightarrow> real" where
  "obfuscationTime c timeStart timeEnd =
     number_divide c (number_minus c (real_of_int timeEnd) (real_of_int timeStart)) 1000"

definition obfuscate ::
  "('w, 'l, 'e, 'm, 'n, 'r) collaborators \<Rightarrow> IOptions \<Rightarrow> string
   \<Rightarrow> ('r, 'w, 'l, 'e, 'm, 'n, 'r) action" where
  "obfuscate c options sourceCode =
     andThen (Date_now c) (\<lambda>timeStart.
     andThen (logger_info c Version (Some (StringValue (version c)))) (\<lambda>_.
     andThen (logger_info c ObfuscationStarted None) (\<lambda>_.
     andThen (randomGenerator_getSeed c) (\<lambda>seed.
     andThen (logger_info c RandomGeneratorSeed (Some seed)) (\<lambda>_.
     andThen (parseCode c options sourceCode) (\<lambda>astTree.
     andThen (transformAstTree c options astTree) (\<lambda>obfuscatedAstTree.
     andThen (generateCode c options sourceCode obfuscatedAstTree) (\<lambda>generatorOutput.
     andThen (Date_now c) (\<lambda>timeEnd.
     andThen (logger_success c ObfuscationCompleted
                (Some (NumberValue (obfuscationTime c timeStart timeEnd)))) (\<lambda>_.
     getObfuscationResult c generatorOutput))))))))))"

subsection \<open>A logger that may throw\<close>






subsection \<open>What a run did, read off its events\<close>

fun stageOf :: "('e, 'm, 'n, 'r) event \<Rightarrow> TransformationStage list" where
  "stageOf (Transform t l st res) = [st]"
| "stageOf _ = []"

fun failedStageOf :: "('e, 'm, 'n, 'r) event \<Rightarrow> TransformationStage list" where
  "failedStageOf (Transform t l st (Inl e)) = [st]"
| "failedStageOf _ = []"

fun parseCallOf :: "('e, 'm, 'n, 'r) event \<Rightarrow> (string \<times> ParseOptions) list" where
  "parseCallOf (Parse src po res) = [(src, po)]"
| "parseCallOf _ = []"

fun inspectionOf :: "('e, 'm, 'n, 'r) event \<Rightarrow> (nat \<times> 'n Program) list" where
  "inspectionOf (Inspect t n) = [(t, n)]"
| "inspectionOf _ = []"

fun generateCallOf :: "('e, 'm, 'n, 'r) event \<Rightarrow> (nat \<times> GenerateOptions) list" where
  "generateCallOf (Generate t opts res) = [(t, opts)]"
| "generateCallOf _ = []"

fun generatedOf :: "('e, 'm, 'n, 'r) event \<Rightarrow> 'm RawMap IGeneratorOutput list" where
  "generatedOf (Generate t opts (Inr out)) = [out]"
| "generatedOf _ = []"

fun correctCallOf :: "('e, 'm, 'n, 'r) event \<Rightarrow> (string \<times> string) list" where
  "correctCallOf (Correct text mapping res) = [(text, mapping)]"
| "correctCallOf _ = []"

fun successOf :: "('e, 'm, 'n, 'r) event \<Rightarrow> (LoggingMessage \<times> LogValue option) list" where
  "successOf (LogSuccess msg v) = [(msg, v)]"
| "successOf _ = []"

fun warningOf :: "('e, 'm, 'n, 'r) event \<Rightarrow> (LoggingMessage \<times> LogValue option) list" where
  "warningOf (LogWarn msg v) = [(msg, v)]"
| "warningOf _ = []"

fun clockSampleOf :: "('e, 'm, 'n, 'r) event \<Rightarrow> int list" where
  "clockSampleOf (DateNow t) = [t]"
| "clockSampleOf _ = []"

text \<open>The stages handed to the transformers runner, in the order of the calls.\<close>

definition stagesRun :: "('e, 'm, 'n, 'r) event list \<Rightarrow> TransformationStage list" where
  "stagesRun tr = concat (map stageOf tr)"

text \<open>The stages in which the transformers runner threw.\<close>

definition failedStages :: "('e, 'm, 'n, 'r) event list \<Rightarrow> TransformationStage list" where
  "failedStages tr = concat (map failedStageOf tr)"

definition parseCalls :: "('e, 'm, 'n, 'r) event list \<Rightarrow> (string \<times> ParseOptions) list" where
  "parseCalls tr = concat (map parseCallOf tr)"

definition inspections :: "('e, 'm, 'n, 'r) event list \<Rightarrow> (nat \<times> 'n Program) list" where
  "inspections tr = concat (map inspectionOf tr)"

definition generateCalls :: "('e, 'm, 'n, 'r) event list \<Rightarrow> (nat \<times> GenerateOptions) list" where
  "generateCalls tr = concat (map generateCallOf tr)"

definition generated :: "('e, 'm, 'n, 'r) event list \<Rightarrow> 'm RawMap IGeneratorOutput list" where
  "generated tr = concat (map generatedOf tr)"

definition correctCalls :: "('e, 'm, 'n, 'r) event list \<Rightarrow> (string \<times> string) list" where
  "correctCalls tr = concat (map correctCallOf tr)"

definition successEvents ::
  "('e, 'm, 'n, 'r) event list \<Rightarrow> (LoggingMessage \<times> LogValue option) list" where
  "successEvents tr = concat (map successOf tr)"

definition warnings ::
  "('e, 'm, 'n, 'r) event list \<Rightarrow> (LoggingMessage \<times> LogValue option) list" where
  "warnings tr = concat (map warningOf tr)"

definition clockSamples :: "('e, 'm, 'n, 'r) event list \<Rightarrow> int list" where
  "clockSamples tr = concat (map clockSampleOf tr)"

text \<open>
  The tree that is current after an event: the parser and a stage that returns produce
  the current tree, a stage that throws leaves none.
\<close>

fun treeAfter :: "nat option \<Rightarrow> ('e, 'm, 'n, 'r) event \<Rightarrow> nat option" where
  "treeAfter cur (Parse src po (Inr t)) = Some t"
| "treeAfter cur (Parse src po (Inl e)) = None"
| "treeAfter cur (Transform t l st (Inr t')) = Some t'"
| "treeAfter cur (Transform t l st (Inl e)) = None"
| "treeAfter cur _ = cur"

text \<open>An event that takes a tree takes the current one.\<close>

fun takesCurrent :: "nat option \<Rightarrow> ('e, 'm, 'n, 'r) event \<Rightarrow> bool" where
  "takesCurrent cur (Inspect t n) = (cur = Some t)"
| "takesCurrent cur (Transform t l st res) = (cur = Some t)"
| "takesCurrent cur (Generate t opts res) = (cur = Some t)"
| "takesCurrent cur _ = True"

text \<open>
  Along the events, every reader of a tree (the degeneracy check, a stage, the generator)
  is handed the tree the last producer (the parser or a stage) returned.
\<close>

fun treesFeedForward :: "nat option \<Rightarrow> ('e, 'm, 'n, 'r) event list \<Rightarrow> bool" where
  "treesFeedForward cur [] = True"
| "treesFeedForward cur (ev # tr) = (takesCurrent cur ev \<and> treesFeedForward (treeAfter cur ev) tr)"

subsection \<open>The behaviour the specification describes\<close>

text \<open>
  The stage order in the words of the specification: Preparing, then DeadCodeInjection
  if and only if its flag is set, then ControlFlowFlattening if and only if its flag is
  set, then Converting, Obfuscating, Finalizing.
\<close>

definition stageOrder :: "IOptions \<Rightarrow> TransformationStage list" where
  "stageOrder options =
     [Preparing]
     @ (if deadCodeInjection options then [DeadCodeInjection] else [])
     @ (if controlFlowFlattening options then [ControlFlowFlattening] else [])
     @ [Converting, Obfuscating, Finalizing]"

definition alwaysOn :: "TransformationStage \<Rightarrow> bool" where
  "alwaysOn st = (st \<noteq> DeadCodeInjection \<and> st \<noteq> ControlFlowFlattening)"

text \<open>
  The mapping field in the words of the specification: a mapping object is serialized
  to its text, no mapping is the empty string.
\<close>

definition normalizedMap :: "('w, 'l, 'e, 'm, 'n, 'r) collaborators \<Rightarrow> 'm RawMap \<Rightarrow> string" where
  "normalizedMap c raw =
     (case raw of MapObject m \<Rightarrow> toString c m | MapNull \<Rightarrow> [] | MapUndefined \<Rightarrow> [])"

text \<open>
  What the option object handed to the generator holds, given what the static
  \<open>escodegenParams\<close> holds: the two source map fields are added when a source map is
  asked for, and \<open>format.compact\<close> is set in every case.
\<close>

definition generatorArgument :: "IOptions \<Rightarrow> string \<Rightarrow> GenerateOptions \<Rightarrow> GenerateOptions" where
  "generatorArgument options sourceCode static =
     (if sourceMap options
      then static\<lparr>generate_sourceMap := Some ''sourceMap'', sourceContent := Some sourceCode\<rparr>
      else static)
     \<lparr>format := Some \<lparr> format_compact = compact options \<rparr>\<rparr>"

text \<open>The events of a run before the parser is called.\<close>

definition prelude ::
  "('w, 'l, 'e, 'm, 'n, 'r) collaborators \<Rightarrow> ('w, 'l) state \<Rightarrow> ('e, 'm, 'n, 'r) event list" where
  "prelude c s =
     [DateNow (now c (ticks s)),
      LogInfo Version (Some (StringValue (version c))),
      LogInfo ObfuscationStarted None,
      GetSeed (fst (getSeed c (world s))),
      LogInfo RandomGeneratorSeed (Some (fst (getSeed c (world s))))]"

text \<open>The state in which a run calls \<open>transformAstTree\<close>, when the parser has returned.\<close>

definition afterParse ::
  "('w, 'l, 'e, 'm, 'n, 'r) collaborators \<Rightarrow> IOptions \<Rightarrow> string \<Rightarrow> ('w, 'l) state
   \<Rightarrow> ('w, 'l) state" where
  "afterParse c options sourceCode s =
     s\<lparr>ticks := Suc (ticks s),
       logger := info c RandomGeneratorSeed (Some (fst (getSeed c (world s))))
                  (info c ObfuscationStarted None
                    (info c Version (Some (StringValue (version c))) (logger s))),
       world := snd (parse c sourceCode \<lparr>attachComment = True, loc = sourceMap options\<rparr>
                       (snd (getSeed c (world s))))\<rparr>"

text \<open>
  The events that are calls whose results the run uses: all but the clock readings, the
  retrieval of the seed and the calls to the logger.
\<close>

fun observational :: "('e, 'm, 'n, 'r) event \<Rightarrow> bool" where
  "observational (DateNow t) = True"
| "observational (GetSeed v) = True"
| "observational (LogInfo msg v) = True"
| "observational (LogWarn msg v) = True"
| "observational (LogSuccess msg v) = True"
| "observational _ = False"

definition controlFlow :: "('e, 'm, 'n, 'r) event list \<Rightarrow> ('e, 'm, 'n, 'r) event list" where
  "controlFlow tr = filter (\<lambda>ev. \<not> observational ev) tr"

text \<open>The stages one after the other, each on the tree the one before returned.\<close>

fun runStages ::
  "('w, 'l, 'e, 'm, 'n, 'r) collaborators \<Rightarrow> TransformationStage list \<Rightarrow> nat
   \<Rightarrow> (nat, 'w, 'l, 'e, 'm, 'n, 'r) action" where
  "runStages c [] astTree = returns astTree"
| "runStages c (st # sts) astTree =
     andThen (runTransformationStage c astTree st) (runStages c sts)"

subsection \<open>Concrete collaborators\<close>

text \<open>
  A small instance on which the theorems are run. The world is the list of the trees
  made so far, a reference is an index into it. The parser rejects the text \<open>(\<close>, reads a
  text that starts with \<open>//\<close> as a comment and any other non-empty text as one statement.
  A stage returns a new tree, or throws in the stage \<open>failing\<close>. The generator returns a
  mapping object exactly when asked for one. The clock reads 1000, 3500, and so on; the
  numbers the runs compute from its readings are doubles, so the rounding of the instance
  leaves them as they are.
\<close>

definition demoTree :: "string \<Rightarrow> string Program" where
  "demoTree src =
     \<lparr> node_type = ''Program'',
       body = (if src = [] \<or> take 2 src = ''//'' then [] else [src]),
       leadingComments = (if take 2 src = ''//'' then Some [src] else None) \<rparr>"

definition demoNodeAt :: "string Program list \<Rightarrow> nat \<Rightarrow> string Program" where
  "demoNodeAt w t = (if t < length w then w ! t else demoTree [])"

definition demoParse ::
  "string \<Rightarrow> ParseOptions \<Rightarrow> string Program list \<Rightarrow> (string + nat) \<times> string Program list" where
  "demoParse src po w =
     (if src = ''('' then (Inl ''Unexpected end of input'', w)
      else (Inr (length w), w @ [demoTree src]))"

definition demoTransform ::
  "TransformationStage option \<Rightarrow> nat \<Rightarrow> NodeTransformer list \<Rightarrow> TransformationStage
   \<Rightarrow> string Program list \<Rightarrow> (string + nat) \<times> string Program list" where
  "demoTransform failing t l st w =
     (if failing = Some st then (Inl ''fault'', w)
      else (Inr (length w), w @ [demoNodeAt w t]))"

definition demoGenerate ::
  "nat \<Rightarrow> GenerateOptions \<Rightarrow> string Program list
   \<Rightarrow> (string + string RawMap IGeneratorOutput) \<times> string Program list" where
  "demoGenerate t opts w =
     (Inr \<lparr> code = concat (body (demoNodeAt w t)),
            map_field = (case generate_sourceMap opts of
                           Some name \<Rightarrow> MapObject (case sourceContent opts of
                                                    Some text \<Rightarrow> text
                                                  | None \<Rightarrow> [])
                         | None \<Rightarrow> MapNull) \<rparr>, w)"

definition demo ::
  "TransformationStage option \<Rightarrow> real \<Rightarrow> int
   \<Rightarrow> (string Program list, int, string, string, string, string \<times> string) collaborators" where
  "demo failing seed step =
     \<lparr> now = (\<lambda>n. 1000 + 2500 * int n),
       toDouble = (\<lambda>x. x),
       version = ''0.18.1'',
       getSeed = (\<lambda>w. (NumberValue seed, w)),
       info = (\<lambda>msg v n. n + step),
       warn = (\<lambda>msg v n. n + step),
       success = (\<lambda>msg v n. n + step),
       parse = demoParse,
       node_at = demoNodeAt,
       isProgramNode = (\<lambda>node. node_type node = ''Program''),
       transform = demoTransform failing,
       generate = demoGenerate,
       toString = (\<lambda>m. ''map of '' @ m),
       correct = (\<lambda>text mapping w. ((text, mapping), w)) \<rparr>"

definition demoOptions :: "bool \<Rightarrow> bool \<Rightarrow> bool \<Rightarrow> IOptions" where
  "demoOptions sm dci cff =
     \<lparr> sourceMap = sm, deadCodeInjection = dci, controlFlowFlattening = cff, compact = True \<rparr>"

text \<open>The state before the first run: the static \<open>escodegenParams\<close> is the only object.\<close>

definition initialState :: "'w \<Rightarrow> 'l \<Rightarrow> ('w, 'l) state" where
  "initialState w l =
     \<lparr> world = w, logger = l, ticks = 0,
       objs = (\<lambda>_. escodegenParams), next_ref = Suc escodegenParams_ref \<rparr>"

text \<open>A run of the instance from the state before the first run.\<close>

definition demoRun ::
  "TransformationStage option \<Rightarrow> IOptions \<Rightarrow> string
   \<Rightarrow> (string + string \<times> string) \<times> (string Program list, int) state
      \<times> (string, string, string, string \<times> string) event list" where
  "demoRun failing options sourceCode =
     obfuscate (demo failing 7 1) options sourceCode (initialState [] 0)"




section \<open>Lemmas\<close>

subsection \<open>Sequencing\<close>

lemma out_simps [simp]:
  "result_of (r, s, tr) = r" "state_of (r, s, tr) = s" "events_of (r, s, tr) = tr"
  by (simp_all add: result_of_def state_of_def events_of_def)

lemma returns_simps [simp]:
  "result_of (returns a s) = Inr a" "state_of (returns a s) = s" "events_of (returns a s) = []"
  by (simp_all add: returns_def)

lemma result_andThen:
  "result_of (andThen m f s) =
     (case result_of (m s) of Inl e \<Rightarrow> Inl e | Inr a \<Rightarrow> result_of (f a (state_of (m s))))"
  by (cases "m s") (auto simp: andThen_def split: sum.splits prod.splits)

lemma state_andThen:
  "state_of (andThen m f s) =
     (case result_of (m s) of Inl e \<Rightarrow> state_of (m s) | Inr a \<Rightarrow> state_of (f a (state_of (m s))))"
  by (cases "m s") (auto simp: andThen_def split: sum.splits prod.splits)

lemma events_andThen:
  "events_of (andThen m f s) =
     events_of (m s) @
     (case result_of (m s) of Inl e \<Rightarrow> [] | Inr a \<Rightarrow> events_of (f a (state_of (m s))))"
  by (cases "m s") (auto simp: andThen_def split: sum.splits prod.splits)

lemmas andThen_simps = result_andThen state_andThen events_andThen

lemma andThen_returns_left [simp]: "andThen (returns a) f = f a"
  by (rule ext) (simp add: andThen_def returns_def split: prod.splits)

lemma andThen_returns_right [simp]: "andThen m returns = m"
  by (rule ext) (auto simp: andThen_def returns_def split: prod.splits sum.splits)

lemma runStages_Nil [simp]: "runStages c [] = returns"
  by (rule ext) simp

lemma runStages_Cons:
  "runStages c (st # sts) = (\<lambda>t. andThen (runTransformationStage c t st) (runStages c sts))"
  by (rule ext) simp

lemma transformAstTree_stages:
  assumes "\<not> isEmptyAstTree c (node_at c (world s) t)"
  shows "transformAstTree c options t s =
           andThen (readProgram c t) (\<lambda>_. runStages c (stageOrder options) t) s"
proof -
  have chain: "andThen (runTransformationStage c t Preparing) (\<lambda>astTree.
       andThen (if deadCodeInjection options
                then runTransformationStage c astTree DeadCodeInjection
                else returns astTree) (\<lambda>astTree.
       andThen (if controlFlowFlattening options
                then runTransformationStage c astTree ControlFlowFlattening
                else returns astTree) (\<lambda>astTree.
       andThen (runTransformationStage c astTree Converting) (\<lambda>astTree.
       andThen (runTransformationStage c astTree Obfuscating) (\<lambda>astTree.
       andThen (runTransformationStage c astTree Finalizing) (\<lambda>astTree.
       returns astTree)))))) = runStages c (stageOrder options) t"
    by (cases "deadCodeInjection options"; cases "controlFlowFlattening options")
       (simp_all add: stageOrder_def runStages_Cons)
  have "transformAstTree c options t s =
          andThen (readProgram c t) (\<lambda>node. runStages c (stageOrder options) t) s"
    unfolding transformAstTree_def chain [symmetric]
    using assms by (simp add: andThen_def readProgram_def)
  then show ?thesis .
qed

lemma transformAstTree_empty:
  assumes "isEmptyAstTree c (node_at c (world s) t)"
  shows "transformAstTree c options t s =
           (Inr t, s\<lparr>logger := warn c EmptySourceCode None (logger s)\<rparr>,
            [Inspect t (node_at c (world s) t), LogWarn EmptySourceCode None])"
  using assms
  by (simp add: transformAstTree_def andThen_def readProgram_def logger_warn_def returns_def)

subsection \<open>The calls to the collaborators\<close>

lemma Date_now_simps [simp]:
  "result_of (Date_now c s) = Inr (now c (ticks s))"
  "state_of (Date_now c s) = s\<lparr>ticks := Suc (ticks s)\<rparr>"
  "events_of (Date_now c s) = [DateNow (now c (ticks s))]"
  by (simp_all add: Date_now_def)

lemma getSeed_simps [simp]:
  "result_of (randomGenerator_getSeed c s) = Inr (fst (getSeed c (world s)))"
  "state_of (randomGenerator_getSeed c s) = s\<lparr>world := snd (getSeed c (world s))\<rparr>"
  "events_of (randomGenerator_getSeed c s) = [GetSeed (fst (getSeed c (world s)))]"
  by (simp_all add: randomGenerator_getSeed_def split: prod.splits)

lemma logger_info_simps [simp]:
  "result_of (logger_info c msg v s) = Inr ()"
  "state_of (logger_info c msg v s) = s\<lparr>logger := info c msg v (logger s)\<rparr>"
  "events_of (logger_info c msg v s) = [LogInfo msg v]"
  by (simp_all add: logger_info_def)

lemma logger_warn_simps [simp]:
  "result_of (logger_warn c msg v s) = Inr ()"
  "state_of (logger_warn c msg v s) = s\<lparr>logger := warn c msg v (logger s)\<rparr>"
  "events_of (logger_warn c msg v s) = [LogWarn msg v]"
  by (simp_all add: logger_warn_def)

lemma logger_success_simps [simp]:
  "result_of (logger_success c msg v s) = Inr ()"
  "state_of (logger_success c msg v s) = s\<lparr>logger := success c msg v (logger s)\<rparr>"
  "events_of (logger_success c msg v s) = [LogSuccess msg v]"
  by (simp_all add: logger_success_def)

lemma parse_simps [simp]:
  "result_of (EsprimaFacade_parse c src po s) = fst (parse c src po (world s))"
  "state_of (EsprimaFacade_parse c src po s) = s\<lparr>world := snd (parse c src po (world s))\<rparr>"
  "events_of (EsprimaFacade_parse c src po s) = [Parse src po (fst (parse c src po (world s)))]"
  by (simp_all add: EsprimaFacade_parse_def split: prod.splits)

lemma readProgram_simps [simp]:
  "result_of (readProgram c t s) = Inr (node_at c (world s) t)"
  "state_of (readProgram c t s) = s"
  "events_of (readProgram c t s) = [Inspect t (node_at c (world s) t)]"
  by (simp_all add: readProgram_def)

lemma transform_simps [simp]:
  "result_of (transformersRunner_transform c t l st s) = fst (transform c t l st (world s))"
  "state_of (transformersRunner_transform c t l st s) =
     s\<lparr>world := snd (transform c t l st (world s))\<rparr>"
  "events_of (transformersRunner_transform c t l st s) =
     [Transform t l st (fst (transform c t l st (world s)))]"
  by (simp_all add: transformersRunner_transform_def split: prod.splits)

lemma generate_simps [simp]:
  "result_of (escodegen_generate c t arg s) = fst (generate c t (objs s arg) (world s))"
  "state_of (escodegen_generate c t arg s) =
     s\<lparr>world := snd (generate c t (objs s arg) (world s))\<rparr>"
  "events_of (escodegen_generate c t arg s) =
     [Generate t (objs s arg) (fst (generate c t (objs s arg) (world s)))]"
  by (simp_all add: escodegen_generate_def split: prod.splits)

lemma correct_simps [simp]:
  "result_of (sourceMapCorrector_correct c text mapping s) =
     Inr (fst (correct c text mapping (world s)))"
  "state_of (sourceMapCorrector_correct c text mapping s) =
     s\<lparr>world := snd (correct c text mapping (world s))\<rparr>"
  "events_of (sourceMapCorrector_correct c text mapping s) =
     [Correct text mapping (fst (correct c text mapping (world s)))]"
  by (simp_all add: sourceMapCorrector_correct_def split: prod.splits)

lemma newObject_simps [simp]:
  "result_of (newObject v s) = Inr (next_ref s)"
  "state_of (newObject v s) = s\<lparr>objs := (objs s)(next_ref s := v), next_ref := Suc (next_ref s)\<rparr>"
  "events_of (newObject v s) = []"
  by (simp_all add: newObject_def)

lemma spread_simps [simp]:
  "result_of (spread src s) = Inr (next_ref s)"
  "state_of (spread src s) =
     s\<lparr>objs := (objs s)(next_ref s := objs s src), next_ref := Suc (next_ref s)\<rparr>"
  "events_of (spread src s) = []"
  by (simp_all add: spread_def)

lemma assign_simps [simp]:
  "result_of (assign ref f s) = Inr ()"
  "state_of (assign ref f s) = s\<lparr>objs := (objs s)(ref := f (objs s ref))\<rparr>"
  "events_of (assign ref f s) = []"
  by (simp_all add: assign_def)

lemma runTransformationStage_simps:
  "result_of (runTransformationStage c t st s) = fst (transform c t transformersList st (world s))"
  "state_of (runTransformationStage c t st s) =
     s\<lparr>logger := info c TransformationStage (Some (StageValue st)) (logger s),
       world := snd (transform c t transformersList st (world s))\<rparr>"
  "events_of (runTransformationStage c t st s) =
     [LogInfo TransformationStage (Some (StageValue st)),
      Transform t transformersList st (fst (transform c t transformersList st (world s)))]"
  by (simp_all add: runTransformationStage_def andThen_simps)

subsection \<open>Reading events\<close>

lemma stagesRun_simps [simp]:
  "stagesRun [] = []"
  "stagesRun (ev # tr) = stageOf ev @ stagesRun tr"
  "stagesRun (tr @ tr') = stagesRun tr @ stagesRun tr'"
  by (simp_all add: stagesRun_def)

lemma failedStages_simps [simp]:
  "failedStages [] = []"
  "failedStages (ev # tr) = failedStageOf ev @ failedStages tr"
  "failedStages (tr @ tr') = failedStages tr @ failedStages tr'"
  by (simp_all add: failedStages_def)

lemma parseCalls_simps [simp]:
  "parseCalls [] = []"
  "parseCalls (ev # tr) = parseCallOf ev @ parseCalls tr"
  "parseCalls (tr @ tr') = parseCalls tr @ parseCalls tr'"
  by (simp_all add: parseCalls_def)

lemma inspections_simps [simp]:
  "inspections [] = []"
  "inspections (ev # tr) = inspectionOf ev @ inspections tr"
  "inspections (tr @ tr') = inspections tr @ inspections tr'"
  by (simp_all add: inspections_def)

lemma generateCalls_simps [simp]:
  "generateCalls [] = []"
  "generateCalls (ev # tr) = generateCallOf ev @ generateCalls tr"
  "generateCalls (tr @ tr') = generateCalls tr @ generateCalls tr'"
  by (simp_all add: generateCalls_def)

lemma generated_simps [simp]:
  "generated [] = []"
  "generated (ev # tr) = generatedOf ev @ generated tr"
  "generated (tr @ tr') = generated tr @ generated tr'"
  by (simp_all add: generated_def)

lemma correctCalls_simps [simp]:
  "correctCalls [] = []"
  "correctCalls (ev # tr) = correctCallOf ev @ correctCalls tr"
  "correctCalls (tr @ tr') = correctCalls tr @ correctCalls tr'"
  by (simp_all add: correctCalls_def)

lemma successEvents_simps [simp]:
  "successEvents [] = []"
  "successEvents (ev # tr) = successOf ev @ successEvents tr"
  "successEvents (tr @ tr') = successEvents tr @ successEvents tr'"
  by (simp_all add: successEvents_def)

lemma warnings_simps [simp]:
  "warnings [] = []"
  "warnings (ev # tr) = warningOf ev @ warnings tr"
  "warnings (tr @ tr') = warnings tr @ warnings tr'"
  by (simp_all add: warnings_def)

lemma clockSamples_simps [simp]:
  "clockSamples [] = []"
  "clockSamples (ev # tr) = clockSampleOf ev @ clockSamples tr"
  "clockSamples (tr @ tr') = clockSamples tr @ clockSamples tr'"
  by (simp_all add: clockSamples_def)

lemma treesFeedForward_append:
  "treesFeedForward cur (tr @ tr') =
     (treesFeedForward cur tr \<and> treesFeedForward (foldl treeAfter cur tr) tr')"
  by (induction tr arbitrary: cur) simp_all

lemma inspections_iff: "Inspect t n \<in> set tr \<longleftrightarrow> (t, n) \<in> set (inspections tr)"
proof (induction tr)
  case Nil
  show ?case by simp
next
  case (Cons ev tr)
  then show ?case by (cases ev) auto
qed

subsection \<open>The stages, by induction on the stage list\<close>

lemmas stage_simps = andThen_simps runTransformationStage_simps

lemma runStages_quiet:
  "parseCalls (events_of (runStages c sts t s)) = [] \<and>
   inspections (events_of (runStages c sts t s)) = [] \<and>
   generateCalls (events_of (runStages c sts t s)) = [] \<and>
   generated (events_of (runStages c sts t s)) = [] \<and>
   correctCalls (events_of (runStages c sts t s)) = [] \<and>
   successEvents (events_of (runStages c sts t s)) = [] \<and>
   warnings (events_of (runStages c sts t s)) = [] \<and>
   clockSamples (events_of (runStages c sts t s)) = []"
  by (induction sts arbitrary: t s) (simp_all add: stage_simps split: sum.splits)

lemma runStages_store:
  "objs (state_of (runStages c sts t s)) = objs s \<and>
   next_ref (state_of (runStages c sts t s)) = next_ref s \<and>
   ticks (state_of (runStages c sts t s)) = ticks s"
  by (induction sts arbitrary: t s) (simp_all add: stage_simps split: sum.splits)

lemma runStages_prefix: "prefix (stagesRun (events_of (runStages c sts t s))) sts"
  by (induction sts arbitrary: t s) (simp_all add: stage_simps split: sum.splits)

lemma runStages_returned:
  "result_of (runStages c sts t s) = Inr t' \<Longrightarrow>
     stagesRun (events_of (runStages c sts t s)) = sts \<and>
     failedStages (events_of (runStages c sts t s)) = []"
  by (induction sts arbitrary: t s) (auto simp add: stage_simps split: sum.splits)

lemma runStages_thrown:
  "result_of (runStages c sts t s) = Inl e \<Longrightarrow>
     \<exists>pre t0 st. events_of (runStages c sts t s) =
        pre @ [LogInfo TransformationStage (Some (StageValue st)),
               Transform t0 transformersList st (Inl e)] \<and>
        failedStages pre = [] \<and> stagesRun pre @ [st] = stagesRun (events_of (runStages c sts t s))"
proof (induction sts arbitrary: t s)
  case Nil
  then show ?case by simp
next
  case (Cons st sts)
  show ?case
  proof (cases "fst (transform c t transformersList st (world s))")
    case (Inl e')
    with Cons.prems have "e' = e" by (simp add: stage_simps)
    with Inl have "events_of (runStages c (st # sts) t s) =
        [] @ [LogInfo TransformationStage (Some (StageValue st)),
              Transform t transformersList st (Inl e)]"
      by (simp add: stage_simps)
    then show ?thesis
      apply (intro exI [of _ "[]"] exI [of _ t] exI [of _ st])
      apply simp
      done
  next
    case (Inr t1)
    let ?s1 = "state_of (runTransformationStage c t st s)"
    from Inr Cons.prems have "result_of (runStages c sts t1 ?s1) = Inl e"
      by (simp add: stage_simps)
    from Cons.IH [OF this] obtain pre t0 st' where
      ev: "events_of (runStages c sts t1 ?s1) =
        pre @ [LogInfo TransformationStage (Some (StageValue st')),
               Transform t0 transformersList st' (Inl e)]"
      and ok: "failedStages pre = []"
      and sr: "stagesRun pre @ [st'] = stagesRun (events_of (runStages c sts t1 ?s1))"
      by blast
    let ?pre = "[LogInfo TransformationStage (Some (StageValue st)),
                 Transform t transformersList st (Inr t1)] @ pre"
    have "events_of (runStages c (st # sts) t s) =
        ?pre @ [LogInfo TransformationStage (Some (StageValue st')),
                Transform t0 transformersList st' (Inl e)]"
      using Inr ev by (simp add: stage_simps)
    moreover have "failedStages ?pre = []" using ok by simp
    moreover have "stagesRun ?pre @ [st'] = stagesRun (events_of (runStages c (st # sts) t s))"
      using Inr sr by (simp add: stage_simps)
    ultimately show ?thesis by blast
  qed
qed

lemma runStages_failed:
  "failedStages (events_of (runStages c sts t s)) =
     (case result_of (runStages c sts t s) of
        Inr t' \<Rightarrow> []
      | Inl e \<Rightarrow> [last (stagesRun (events_of (runStages c sts t s)))])"
proof (cases "result_of (runStages c sts t s)")
  case (Inl e)
  from runStages_thrown [OF this] obtain pre t0 st where
    ev: "events_of (runStages c sts t s) =
        pre @ [LogInfo TransformationStage (Some (StageValue st)),
               Transform t0 transformersList st (Inl e)]"
    and ok: "failedStages pre = []"
    by blast
  show ?thesis using Inl ok by (simp add: ev)
next
  case (Inr t')
  with runStages_returned [OF Inr] show ?thesis by simp
qed

lemma runStages_feed:
  "treesFeedForward (Some t) (events_of (runStages c sts t s)) \<and>
   foldl treeAfter (Some t) (events_of (runStages c sts t s)) =
     (case result_of (runStages c sts t s) of Inr t' \<Rightarrow> Some t' | Inl e \<Rightarrow> None)"
  by (induction sts arbitrary: t s) (simp_all add: stage_simps split: sum.splits)

subsection \<open>The events of \<open>transformAstTree\<close>\<close>

lemma transformAstTree_quiet:
  "parseCalls (events_of (transformAstTree c options t s)) = [] \<and>
   inspections (events_of (transformAstTree c options t s)) = [(t, node_at c (world s) t)] \<and>
   generateCalls (events_of (transformAstTree c options t s)) = [] \<and>
   generated (events_of (transformAstTree c options t s)) = [] \<and>
   correctCalls (events_of (transformAstTree c options t s)) = [] \<and>
   successEvents (events_of (transformAstTree c options t s)) = [] \<and>
   clockSamples (events_of (transformAstTree c options t s)) = []"
proof (cases "isEmptyAstTree c (node_at c (world s) t)")
  case True
  then show ?thesis by (simp add: transformAstTree_empty)
next
  case False
  then show ?thesis by (simp add: transformAstTree_stages andThen_simps runStages_quiet)
qed

lemma transformAstTree_store:
  "objs (state_of (transformAstTree c options t s)) = objs s \<and>
   next_ref (state_of (transformAstTree c options t s)) = next_ref s \<and>
   ticks (state_of (transformAstTree c options t s)) = ticks s"
proof (cases "isEmptyAstTree c (node_at c (world s) t)")
  case True
  then show ?thesis by (simp add: transformAstTree_empty)
next
  case False
  then show ?thesis by (simp add: transformAstTree_stages andThen_simps runStages_store)
qed

lemma transformAstTree_warnings:
  "warnings (events_of (transformAstTree c options t s)) =
     (if isEmptyAstTree c (node_at c (world s) t) then [(EmptySourceCode, None)] else [])"
proof (cases "isEmptyAstTree c (node_at c (world s) t)")
  case True
  then show ?thesis by (simp add: transformAstTree_empty)
next
  case False
  then show ?thesis by (simp add: transformAstTree_stages andThen_simps runStages_quiet)
qed

lemma transformAstTree_prefix:
  assumes "\<not> isEmptyAstTree c (node_at c (world s) t)"
  shows "prefix (stagesRun (events_of (transformAstTree c options t s))) (stageOrder options)"
    and "stagesRun (events_of (transformAstTree c options t s)) \<noteq> []"
  using assms
  by (simp_all add: transformAstTree_stages andThen_simps runStages_prefix)
     (simp add: stageOrder_def stage_simps)

lemma transformAstTree_failed:
  "failedStages (events_of (transformAstTree c options t s)) =
     (case result_of (transformAstTree c options t s) of
        Inr t' \<Rightarrow> []
      | Inl e \<Rightarrow> [last (stagesRun (events_of (transformAstTree c options t s)))])"
proof (cases "isEmptyAstTree c (node_at c (world s) t)")
  case True
  then show ?thesis by (simp add: transformAstTree_empty)
next
  case False
  then show ?thesis
    using runStages_failed [of c "stageOrder options" t s]
    by (simp add: transformAstTree_stages andThen_simps split: sum.splits)
qed

lemma transformAstTree_returned:
  assumes "\<not> isEmptyAstTree c (node_at c (world s) t)"
    and "result_of (transformAstTree c options t s) = Inr t'"
  shows "stagesRun (events_of (transformAstTree c options t s)) = stageOrder options"
  using assms runStages_returned [of c "stageOrder options" t s t']
  by (simp add: transformAstTree_stages andThen_simps)

lemma transformAstTree_thrown:
  assumes "result_of (transformAstTree c options t s) = Inl e"
  shows "\<exists>pre t0 st. events_of (transformAstTree c options t s) =
        pre @ [LogInfo TransformationStage (Some (StageValue st)),
               Transform t0 transformersList st (Inl e)] \<and>
        failedStages pre = [] \<and> successEvents pre = [] \<and> warnings pre = []"
proof (cases "isEmptyAstTree c (node_at c (world s) t)")
  case True
  with assms show ?thesis by (simp add: transformAstTree_empty)
next
  case False
  with assms have "result_of (runStages c (stageOrder options) t s) = Inl e"
    by (simp add: transformAstTree_stages andThen_simps)
  from runStages_thrown [OF this] obtain pre t0 st where
    ev: "events_of (runStages c (stageOrder options) t s) =
        pre @ [LogInfo TransformationStage (Some (StageValue st)),
               Transform t0 transformersList st (Inl e)]"
    and ok: "failedStages pre = []"
    by blast
  from runStages_quiet [of c "stageOrder options" t s]
  have quiet: "successEvents pre = []" "warnings pre = []"
    by (simp_all add: ev)
  have "events_of (transformAstTree c options t s) =
        (Inspect t (node_at c (world s) t) # pre) @
          [LogInfo TransformationStage (Some (StageValue st)),
           Transform t0 transformersList st (Inl e)]"
    using False ev by (simp add: transformAstTree_stages andThen_simps)
  moreover have "failedStages (Inspect t (node_at c (world s) t) # pre) = []"
    "successEvents (Inspect t (node_at c (world s) t) # pre) = []"
    "warnings (Inspect t (node_at c (world s) t) # pre) = []"
    using ok quiet by simp_all
  ultimately show ?thesis by blast
qed

lemma transformAstTree_feed:
  "treesFeedForward (Some t) (events_of (transformAstTree c options t s)) \<and>
   foldl treeAfter (Some t) (events_of (transformAstTree c options t s)) =
     (case result_of (transformAstTree c options t s) of Inr t' \<Rightarrow> Some t' | Inl e \<Rightarrow> None)"
proof (cases "isEmptyAstTree c (node_at c (world s) t)")
  case True
  then show ?thesis by (simp add: transformAstTree_empty)
next
  case False
  then show ?thesis
    using runStages_feed [of t c "stageOrder options" s]
    by (simp add: transformAstTree_stages andThen_simps)
qed

subsection \<open>The events of \<open>generateCode\<close>\<close>

lemma generateCode_events:
  "events_of (generateCode c options src t s) =
     [Generate t (generatorArgument options src (objs s escodegenParams_ref))
        (fst (generate c t (generatorArgument options src (objs s escodegenParams_ref)) (world s)))]"
  by (simp add: generateCode_def andThen_simps generatorArgument_def split: sum.splits)

lemma generateCode_result:
  "result_of (generateCode c options src t s) =
     (case fst (generate c t (generatorArgument options src (objs s escodegenParams_ref)) (world s)) of
        Inl e \<Rightarrow> Inl e
      | Inr out \<Rightarrow> Inr \<lparr> code = code out, map_field = normalizedMap c (map_field out) \<rparr>)"
  by (simp add: generateCode_def andThen_simps generatorArgument_def normalizedMap_def
      split: sum.splits RawMap.splits)

lemma generateCode_store:
  "ticks (state_of (generateCode c options src t s)) = ticks s \<and>
   logger (state_of (generateCode c options src t s)) = logger s \<and>
   next_ref (state_of (generateCode c options src t s)) = Suc (Suc (next_ref s)) \<and>
   (\<forall>r. r < next_ref s \<longrightarrow> objs (state_of (generateCode c options src t s)) r = objs s r)"
  by (simp add: generateCode_def andThen_simps split: sum.splits)

subsection \<open>The four ways a run can end\<close>

lemma afterParse_simps [simp]:
  "world (afterParse c options src s) =
     snd (parse c src \<lparr>attachComment = True, loc = sourceMap options\<rparr> (snd (getSeed c (world s))))"
  "objs (afterParse c options src s) = objs s"
  "next_ref (afterParse c options src s) = next_ref s"
  "ticks (afterParse c options src s) = Suc (ticks s)"
  by (simp_all add: afterParse_def)

lemma obfuscate_result:
  "result_of (obfuscate c options src s) =
    (case fst (parse c src \<lparr>attachComment = True, loc = sourceMap options\<rparr> (snd (getSeed c (world s)))) of
       Inl e \<Rightarrow> Inl e
     | Inr t \<Rightarrow>
        (case result_of (transformAstTree c options t (afterParse c options src s)) of
           Inl e \<Rightarrow> Inl e
         | Inr t' \<Rightarrow>
            (case result_of (generateCode c options src t'
                    (state_of (transformAstTree c options t (afterParse c options src s)))) of
               Inl e \<Rightarrow> Inl e
             | Inr out \<Rightarrow>
                Inr (fst (correct c (code out) (map_field out)
                  (world (state_of (generateCode c options src t'
                    (state_of (transformAstTree c options t (afterParse c options src s)))))))))))"
  by (simp add: obfuscate_def andThen_simps parseCode_def getObfuscationResult_def afterParse_def
      split: sum.splits)


lemma obfuscate_events:
  "events_of (obfuscate c options src s) =
    prelude c s @
    Parse src \<lparr>attachComment = True, loc = sourceMap options\<rparr> (fst (parse c src \<lparr>attachComment = True, loc = sourceMap options\<rparr> (snd (getSeed c (world s))))) #
    (case fst (parse c src \<lparr>attachComment = True, loc = sourceMap options\<rparr> (snd (getSeed c (world s)))) of
       Inl e \<Rightarrow> []
     | Inr t \<Rightarrow>
        events_of (transformAstTree c options t (afterParse c options src s)) @
        (case result_of (transformAstTree c options t (afterParse c options src s)) of
           Inl e \<Rightarrow> []
         | Inr t' \<Rightarrow>
            events_of (generateCode c options src t'
               (state_of (transformAstTree c options t (afterParse c options src s)))) @
            (case result_of (generateCode c options src t'
                    (state_of (transformAstTree c options t (afterParse c options src s)))) of
               Inl e \<Rightarrow> []
             | Inr out \<Rightarrow>
                [DateNow (now c (Suc (ticks s))),
                 LogSuccess ObfuscationCompleted
                   (Some (NumberValue
                      (obfuscationTime c (now c (ticks s)) (now c (Suc (ticks s)))))),
                 Correct (code out) (map_field out)
                   (fst (correct c (code out) (map_field out)
                      (world (state_of (generateCode c options src t'
                         (state_of (transformAstTree c options t
                            (afterParse c options src s))))))))])))"
proof -
  have ticks: "ticks (state_of (generateCode c options src t'
      (state_of (transformAstTree c options t (afterParse c options src s))))) = Suc (ticks s)"
    for t t'
    by (simp add: generateCode_store transformAstTree_store)
  have "events_of (obfuscate c options src s) =
    prelude c s @
    Parse src \<lparr>attachComment = True, loc = sourceMap options\<rparr> (fst (parse c src \<lparr>attachComment = True, loc = sourceMap options\<rparr> (snd (getSeed c (world s))))) #
    (case fst (parse c src \<lparr>attachComment = True, loc = sourceMap options\<rparr> (snd (getSeed c (world s)))) of
       Inl e \<Rightarrow> []
     | Inr t \<Rightarrow>
        events_of (transformAstTree c options t (afterParse c options src s)) @
        (case result_of (transformAstTree c options t (afterParse c options src s)) of
           Inl e \<Rightarrow> []
         | Inr t' \<Rightarrow>
            events_of (generateCode c options src t'
               (state_of (transformAstTree c options t (afterParse c options src s)))) @
            (case result_of (generateCode c options src t'
                    (state_of (transformAstTree c options t (afterParse c options src s)))) of
               Inl e \<Rightarrow> []
             | Inr out \<Rightarrow>
                [DateNow (now c (ticks (state_of (generateCode c options src t'
                    (state_of (transformAstTree c options t (afterParse c options src s))))))),
                 LogSuccess ObfuscationCompleted
                   (Some (NumberValue
                      (obfuscationTime c (now c (ticks s))
                        (now c (ticks (state_of (generateCode c options src t'
                          (state_of (transformAstTree c options t
                            (afterParse c options src s)))))))))),
                 Correct (code out) (map_field out)
                   (fst (correct c (code out) (map_field out)
                      (world (state_of (generateCode c options src t'
                         (state_of (transformAstTree c options t
                            (afterParse c options src s))))))))])))"
    by (simp add: obfuscate_def andThen_simps parseCode_def getObfuscationResult_def
        afterParse_def prelude_def split: sum.splits)
  then show ?thesis by (simp only: ticks)
qed

lemma obfuscate_cases [case_names parse_failed transform_failed generate_failed completed]:
  fixes c :: "('w, 'l, 'e, 'm, 'n, 'r) collaborators"
  obtains
    (parse_failed) e where
      "fst (parse c src \<lparr>attachComment = True, loc = sourceMap options\<rparr> (snd (getSeed c (world s)))) = Inl e"
      "result_of (obfuscate c options src s) = Inl e"
      "events_of (obfuscate c options src s) = prelude c s @ [Parse src \<lparr>attachComment = True, loc = sourceMap options\<rparr> (Inl e)]"
  | (transform_failed) t e where
      "fst (parse c src \<lparr>attachComment = True, loc = sourceMap options\<rparr> (snd (getSeed c (world s)))) = Inr t"
      "result_of (transformAstTree c options t (afterParse c options src s)) = Inl e"
      "result_of (obfuscate c options src s) = Inl e"
      "events_of (obfuscate c options src s) =
         prelude c s @ Parse src \<lparr>attachComment = True, loc = sourceMap options\<rparr> (Inr t)
           # events_of (transformAstTree c options t (afterParse c options src s))"
  | (generate_failed) t t' e where
      "fst (parse c src \<lparr>attachComment = True, loc = sourceMap options\<rparr> (snd (getSeed c (world s)))) = Inr t"
      "result_of (transformAstTree c options t (afterParse c options src s)) = Inr t'"
      "result_of (generateCode c options src t'
         (state_of (transformAstTree c options t (afterParse c options src s)))) = Inl e"
      "result_of (obfuscate c options src s) = Inl e"
      "events_of (obfuscate c options src s) =
         prelude c s @ Parse src \<lparr>attachComment = True, loc = sourceMap options\<rparr> (Inr t)
           # events_of (transformAstTree c options t (afterParse c options src s))
           @ events_of (generateCode c options src t'
               (state_of (transformAstTree c options t (afterParse c options src s))))"
  | (completed) t t' out res where
      "fst (parse c src \<lparr>attachComment = True, loc = sourceMap options\<rparr> (snd (getSeed c (world s)))) = Inr t"
      "result_of (transformAstTree c options t (afterParse c options src s)) = Inr t'"
      "result_of (generateCode c options src t'
         (state_of (transformAstTree c options t (afterParse c options src s)))) = Inr out"
      "result_of (obfuscate c options src s) = Inr res"
      "events_of (obfuscate c options src s) =
         prelude c s @ Parse src \<lparr>attachComment = True, loc = sourceMap options\<rparr> (Inr t)
           # events_of (transformAstTree c options t (afterParse c options src s))
           @ events_of (generateCode c options src t'
               (state_of (transformAstTree c options t (afterParse c options src s))))
           @ [DateNow (now c (Suc (ticks s))),
              LogSuccess ObfuscationCompleted
                (Some (NumberValue (obfuscationTime c (now c (ticks s)) (now c (Suc (ticks s)))))),
              Correct (code out) (map_field out) res]"
proof -
  let ?pr = "parse c src \<lparr>attachComment = True, loc = sourceMap options\<rparr> (snd (getSeed c (world s)))"
  let ?s1 = "afterParse c options src s"
  let ?T = "transformAstTree c options"
  let ?G = "generateCode c options src"
  note res = obfuscate_result [of c options src s]
  note ev = obfuscate_events [of c options src s]
  show thesis
  proof (cases "fst ?pr")
    case (Inl e)
    with res ev show thesis by (intro parse_failed [of e]) simp_all
  next
    case p: (Inr t)
    show thesis
    proof (cases "result_of (?T t ?s1)")
      case (Inl e)
      with p res ev show thesis by (intro transform_failed [of t e]) simp_all
    next
      case tr: (Inr t')
      show thesis
      proof (cases "result_of (?G t' (state_of (?T t ?s1)))")
        case (Inl e)
        with p tr res ev show thesis by (intro generate_failed [of t t' e]) simp_all
      next
        case (Inr out)
        with p tr res ev show thesis by (intro completed [of t t' out]) simp_all
      qed
    qed
  qed
qed

lemma prelude_quiet [simp]:
  "parseCalls (prelude c s) = []" "inspections (prelude c s) = []"
  "stagesRun (prelude c s) = []" "failedStages (prelude c s) = []"
  "generateCalls (prelude c s) = []" "generated (prelude c s) = []"
  "correctCalls (prelude c s) = []" "successEvents (prelude c s) = []"
  "warnings (prelude c s) = []" "clockSamples (prelude c s) = [now c (ticks s)]"
  "foldl treeAfter cur (prelude c s) = cur"
  "treesFeedForward cur (prelude c s)"
  by (simp_all add: prelude_def)

lemma parse_event_mem: "Parse src po res \<in> set tr \<Longrightarrow> (src, po) \<in> set (parseCalls tr)"
proof (induction tr)
  case Nil
  then show ?case by simp
next
  case (Cons ev tr)
  then show ?case by (cases ev) auto
qed

lemma failed_transform_mem:
  "Transform t l st (Inl e) \<in> set tr \<Longrightarrow> st \<in> set (failedStages tr)"
proof (induction tr)
  case Nil
  then show ?case by simp
next
  case (Cons ev tr)
  then show ?case by (cases ev) auto
qed

lemma generateCode_quiet:
  "parseCalls (events_of (generateCode c options src t s)) = [] \<and>
   inspections (events_of (generateCode c options src t s)) = [] \<and>
   stagesRun (events_of (generateCode c options src t s)) = [] \<and>
   failedStages (events_of (generateCode c options src t s)) = [] \<and>
   correctCalls (events_of (generateCode c options src t s)) = [] \<and>
   successEvents (events_of (generateCode c options src t s)) = [] \<and>
   warnings (events_of (generateCode c options src t s)) = [] \<and>
   clockSamples (events_of (generateCode c options src t s)) = []"
  by (simp add: generateCode_events)

subsection \<open>Runs in which the tree is read\<close>

lemma isEmptyAstTree_iff:
  "isEmptyAstTree c node \<longleftrightarrow> isProgramNode c node \<and> body node = [] \<and> leadingComments node = None"
  by (simp add: isEmptyAstTree_def)

lemma stageOrder_alwaysOn:
  "filter alwaysOn (stageOrder options) = [Preparing, Converting, Obfuscating, Finalizing]"
  by (simp add: stageOrder_def alwaysOn_def)

lemma stageOrder_hd: "prefix sts (stageOrder options) \<Longrightarrow> sts \<noteq> [] \<Longrightarrow> hd sts = Preparing"
  by (cases sts) (simp_all add: stageOrder_def)

lemma inspected_run:
  assumes "Inspect t node \<in> set (events_of (obfuscate c options src s))"
  obtains rest where
    "fst (parse c src \<lparr>attachComment = True, loc = sourceMap options\<rparr>
       (snd (getSeed c (world s)))) = Inr t"
    "node = node_at c (world (afterParse c options src s)) t"
    "events_of (obfuscate c options src s) =
       prelude c s @ Parse src \<lparr>attachComment = True, loc = sourceMap options\<rparr> (Inr t)
         # events_of (transformAstTree c options t (afterParse c options src s)) @ rest"
    "stagesRun rest = []" "failedStages rest = []" "warnings rest = []"
    "map fst (generateCalls rest) =
       (case result_of (transformAstTree c options t (afterParse c options src s)) of
          Inr t' \<Rightarrow> [t'] | Inl e \<Rightarrow> [])"
    "treesFeedForward
       (foldl treeAfter (Some t)
          (events_of (transformAstTree c options t (afterParse c options src s)))) rest"
proof (cases rule: obfuscate_cases [of c src options s])
  case (parse_failed e)
  with assms show ?thesis by (auto simp: prelude_def)
next
  case (transform_failed t0 e)
  from assms have "(t, node) \<in> set (inspections (events_of (obfuscate c options src s)))"
    by (simp add: inspections_iff)
  then have eq: "t = t0" "node = node_at c (world (afterParse c options src s)) t0"
    by (simp_all add: transform_failed(4) transformAstTree_quiet)
  show ?thesis
    using transform_failed eq by (intro that [of "[]"]) simp_all
next
  case (generate_failed t0 t' e)
  from assms have "(t, node) \<in> set (inspections (events_of (obfuscate c options src s)))"
    by (simp add: inspections_iff)
  then have eq: "t = t0" "node = node_at c (world (afterParse c options src s)) t0"
    by (simp_all add: generate_failed(5) transformAstTree_quiet generateCode_quiet)
  show ?thesis
    using generate_failed eq transformAstTree_feed [of t0 c options "afterParse c options src s"]
    by (intro that [of "events_of (generateCode c options src t'
           (state_of (transformAstTree c options t0 (afterParse c options src s))))"])
       (simp_all add: generateCode_events)
next
  case (completed t0 t' out res)
  from assms have "(t, node) \<in> set (inspections (events_of (obfuscate c options src s)))"
    by (simp add: inspections_iff)
  then have eq: "t = t0" "node = node_at c (world (afterParse c options src s)) t0"
    by (simp_all add: completed(5) transformAstTree_quiet generateCode_quiet)
  show ?thesis
    using completed eq transformAstTree_feed [of t0 c options "afterParse c options src s"]
    by (intro that [of "events_of (generateCode c options src t'
           (state_of (transformAstTree c options t0 (afterParse c options src s))))
           @ [DateNow (now c (Suc (ticks s))),
              LogSuccess ObfuscationCompleted
                (Some (NumberValue (obfuscationTime c (now c (ticks s)) (now c (Suc (ticks s)))))),
              Correct (code out) (map_field out) res]"])
       (simp_all add: generateCode_events)
qed

subsection \<open>Runs of the concrete instance\<close>

lemmas demo_defs = demo_def demoOptions_def initialState_def demoParse_def demoTransform_def
  demoGenerate_def demoNodeAt_def demoTree_def escodegenParams_def escodegenParams_ref_def

lemmas run_defs = obfuscate_def parseCode_def transformAstTree_def generateCode_def
  getObfuscationResult_def runTransformationStage_def isEmptyAstTree_def
  obfuscationTime_def number_minus_def number_divide_def

lemmas demoRun_defs = demoRun_def run_defs andThen_simps demo_defs

lemma demoRun_statement:
  "events_of (demoRun None (demoOptions False True False) ''var x = 1;'') =
   [DateNow 1000, LogInfo Version (Some (StringValue ''0.18.1'')),
    LogInfo ObfuscationStarted None, GetSeed (NumberValue 7),
    LogInfo RandomGeneratorSeed (Some (NumberValue 7)),
    Parse ''var x = 1;'' \<lparr>attachComment = True, loc = False\<rparr> (Inr 0),
    Inspect 0 \<lparr>node_type = ''Program'', body = [''var x = 1;''], leadingComments = None\<rparr>,
    LogInfo TransformationStage (Some (StageValue Preparing)),
    Transform 0 transformersList Preparing (Inr 1),
    LogInfo TransformationStage (Some (StageValue DeadCodeInjection)),
    Transform 1 transformersList DeadCodeInjection (Inr 2),
    LogInfo TransformationStage (Some (StageValue Converting)),
    Transform 2 transformersList Converting (Inr 3),
    LogInfo TransformationStage (Some (StageValue Obfuscating)),
    Transform 3 transformersList Obfuscating (Inr 4),
    LogInfo TransformationStage (Some (StageValue Finalizing)),
    Transform 4 transformersList Finalizing (Inr 5),
    Generate 5
      \<lparr>comment = Some True, verbatim = Some ''x-verbatim-property'',
       sourceMapWithCode = Some True, generate_sourceMap = None,
       sourceContent = None, format = Some \<lparr>format_compact = True\<rparr>\<rparr>
      (Inr \<lparr>code = ''var x = 1;'', map_field = MapNull\<rparr>),
    DateNow 3500,
    LogSuccess ObfuscationCompleted (Some (NumberValue (5 / 2))),
    Correct ''var x = 1;'' [] (''var x = 1;'', [])]"
  by (simp add: demoRun_defs)

lemma demoRun_empty:
  "events_of (demoRun None (demoOptions True True True) []) =
   [DateNow 1000, LogInfo Version (Some (StringValue ''0.18.1'')),
    LogInfo ObfuscationStarted None, GetSeed (NumberValue 7),
    LogInfo RandomGeneratorSeed (Some (NumberValue 7)),
    Parse [] \<lparr>attachComment = True, loc = True\<rparr> (Inr 0),
    Inspect 0 \<lparr>node_type = ''Program'', body = [], leadingComments = None\<rparr>,
    LogWarn EmptySourceCode None,
    Generate 0
      \<lparr>comment = Some True, verbatim = Some ''x-verbatim-property'',
       sourceMapWithCode = Some True, generate_sourceMap = Some ''sourceMap'',
       sourceContent = Some [], format = Some \<lparr>format_compact = True\<rparr>\<rparr>
      (Inr \<lparr>code = [], map_field = MapObject []\<rparr>),
    DateNow 3500,
    LogSuccess ObfuscationCompleted (Some (NumberValue (5 / 2))),
    Correct [] ''map of '' ([], ''map of '')]"
  by (simp add: demoRun_defs)

lemma demoRun_comment:
  "events_of (demoRun None (demoOptions False False False) ''// c'') =
   [DateNow 1000, LogInfo Version (Some (StringValue ''0.18.1'')),
    LogInfo ObfuscationStarted None, GetSeed (NumberValue 7),
    LogInfo RandomGeneratorSeed (Some (NumberValue 7)),
    Parse ''// c'' \<lparr>attachComment = True, loc = False\<rparr> (Inr 0),
    Inspect 0 \<lparr>node_type = ''Program'', body = [], leadingComments = Some [''// c'']\<rparr>,
    LogInfo TransformationStage (Some (StageValue Preparing)),
    Transform 0 transformersList Preparing (Inr 1),
    LogInfo TransformationStage (Some (StageValue Converting)),
    Transform 1 transformersList Converting (Inr 2),
    LogInfo TransformationStage (Some (StageValue Obfuscating)),
    Transform 2 transformersList Obfuscating (Inr 3),
    LogInfo TransformationStage (Some (StageValue Finalizing)),
    Transform 3 transformersList Finalizing (Inr 4),
    Generate 4
      \<lparr>comment = Some True, verbatim = Some ''x-verbatim-property'',
       sourceMapWithCode = Some True, generate_sourceMap = None,
       sourceContent = None, format = Some \<lparr>format_compact = True\<rparr>\<rparr>
      (Inr \<lparr>code = [], map_field = MapNull\<rparr>),
    DateNow 3500,
    LogSuccess ObfuscationCompleted (Some (NumberValue (5 / 2))),
    Correct [] [] ([], [])]"
  by (simp add: demoRun_defs)

lemma demoRun_fault:
  "events_of (demoRun (Some Obfuscating) (demoOptions False False False) ''var x = 1;'') =
   [DateNow 1000, LogInfo Version (Some (StringValue ''0.18.1'')),
    LogInfo ObfuscationStarted None, GetSeed (NumberValue 7),
    LogInfo RandomGeneratorSeed (Some (NumberValue 7)),
    Parse ''var x = 1;'' \<lparr>attachComment = True, loc = False\<rparr> (Inr 0),
    Inspect 0 \<lparr>node_type = ''Program'', body = [''var x = 1;''], leadingComments = None\<rparr>,
    LogInfo TransformationStage (Some (StageValue Preparing)),
    Transform 0 transformersList Preparing (Inr 1),
    LogInfo TransformationStage (Some (StageValue Converting)),
    Transform 1 transformersList Converting (Inr 2),
    LogInfo TransformationStage (Some (StageValue Obfuscating)),
    Transform 2 transformersList Obfuscating (Inl ''fault'')]"
  "result_of (demoRun (Some Obfuscating) (demoOptions False False False) ''var x = 1;'') =
     Inl ''fault''"
  by (simp_all add: demoRun_defs)

lemma demoRun_fault_early:
  "events_of (demoRun (Some Preparing) (demoOptions False False False) ''var x = 1;'') =
   [DateNow 1000, LogInfo Version (Some (StringValue ''0.18.1'')),
    LogInfo ObfuscationStarted None, GetSeed (NumberValue 7),
    LogInfo RandomGeneratorSeed (Some (NumberValue 7)),
    Parse ''var x = 1;'' \<lparr>attachComment = True, loc = False\<rparr> (Inr 0),
    Inspect 0 \<lparr>node_type = ''Program'', body = [''var x = 1;''], leadingComments = None\<rparr>,
    LogInfo TransformationStage (Some (StageValue Preparing)),
    Transform 0 transformersList Preparing (Inl ''fault'')]"
  "result_of (demoRun (Some Preparing) (demoOptions False False False) ''var x = 1;'') =
     Inl ''fault''"
  by (simp_all add: demoRun_defs)

subsection \<open>The store of option objects\<close>

lemma generateCode_old_objects:
  "r < next_ref s \<Longrightarrow> objs (state_of (generateCode c options src t s)) r = objs s r"
  by (simp add: generateCode_store)

lemma generateCode_fresh:
  "map snd (generateCalls (events_of (generateCode c options src t s))) =
     [objs (state_of (generateCode c options src t s)) (Suc (next_ref s))]"
  by (simp add: generateCode_def andThen_simps split: sum.splits)

lemma obfuscate_store:
  "next_ref s \<le> next_ref (state_of (obfuscate c options src s)) \<and>
   (\<forall>r. r < next_ref s \<longrightarrow> objs (state_of (obfuscate c options src s)) r = objs s r)"
  by (simp add: obfuscate_def andThen_simps parseCode_def getObfuscationResult_def
      transformAstTree_store generateCode_store split: sum.splits)

subsection \<open>Two runs side by side\<close>

lemma controlFlow_simps [simp]:
  "controlFlow [] = []"
  "controlFlow (ev # tr) = (if observational ev then controlFlow tr else ev # controlFlow tr)"
  "controlFlow (tr @ tr') = controlFlow tr @ controlFlow tr'"
  by (simp_all add: controlFlow_def)

lemma prelude_controlFlow [simp]: "controlFlow (prelude c s) = []"
  by (simp add: prelude_def)






subsection \<open>A logger whose calls return\<close>



section \<open>The claims\<close>

text \<open>
  C1: in every run that reads a tree that is not the empty program, whatever the
  options, the stages handed to the transformers runner are an initial part of the order
  Preparing, DeadCodeInjection if and only if its flag is set, ControlFlowFlattening if
  and only if its flag is set, Converting, Obfuscating, Finalizing (\<open>stageOrder\<close>), and
  they are the whole of it when no stage throws. The first stage is handed the tree the
  parser returned, every later stage the tree the stage before it returned, and the
  generator the tree the last stage returned (\<open>treesFeedForward\<close>). The always-on
  stages among them are Preparing, Converting, Obfuscating, Finalizing in this order,
  whatever the two flags are.
\<close>

theorem stage_order:
  assumes "Inspect t node \<in> set (events_of (obfuscate c options sourceCode s))"
    and "\<not> (isProgramNode c node \<and> body node = [] \<and> leadingComments node = None)"
  shows "prefix (stagesRun (events_of (obfuscate c options sourceCode s))) (stageOrder options) \<and>
         treesFeedForward None (events_of (obfuscate c options sourceCode s)) \<and>
         (failedStages (events_of (obfuscate c options sourceCode s)) = [] \<longrightarrow>
            stagesRun (events_of (obfuscate c options sourceCode s)) = stageOrder options \<and>
            filter alwaysOn (stagesRun (events_of (obfuscate c options sourceCode s))) =
              [Preparing, Converting, Obfuscating, Finalizing])"
proof -
  let ?s1 = "afterParse c options sourceCode s"
  let ?E = "events_of (transformAstTree c options t ?s1)"
  from assms(1) obtain rest where
    node: "node = node_at c (world ?s1) t"
    and ev: "events_of (obfuscate c options sourceCode s) =
       prelude c s @ Parse sourceCode \<lparr>attachComment = True, loc = sourceMap options\<rparr> (Inr t)
         # ?E @ rest"
    and rest: "stagesRun rest = []" "failedStages rest = []"
    and feed: "treesFeedForward (foldl treeAfter (Some t) ?E) rest"
    by (rule inspected_run)
  from assms(2) node have ne: "\<not> isEmptyAstTree c (node_at c (world ?s1) t)"
    by (simp add: isEmptyAstTree_iff)
  have sr: "stagesRun (events_of (obfuscate c options sourceCode s)) = stagesRun ?E"
    and fs: "failedStages (events_of (obfuscate c options sourceCode s)) = failedStages ?E"
    by (simp_all add: ev rest)
  have "prefix (stagesRun ?E) (stageOrder options)"
    using ne by (rule transformAstTree_prefix)
  moreover have "treesFeedForward None (events_of (obfuscate c options sourceCode s))"
    using feed transformAstTree_feed [of t c options ?s1]
    by (simp add: ev treesFeedForward_append)
  moreover have "stagesRun ?E = stageOrder options" if "failedStages ?E = []"
  proof (cases "result_of (transformAstTree c options t ?s1)")
    case (Inl e)
    with that transformAstTree_failed [of c options t ?s1] show ?thesis by simp
  next
    case (Inr t')
    with ne show ?thesis by (rule transformAstTree_returned)
  qed
  ultimately show ?thesis by (simp add: sr fs stageOrder_alwaysOn)
qed

theorem stage_order_witness:
  "Inspect 0 \<lparr>node_type = ''Program'', body = [''var x = 1;''], leadingComments = None\<rparr>
     \<in> set (events_of (demoRun None (demoOptions False True False) ''var x = 1;'')) \<and>
   failedStages (events_of (demoRun None (demoOptions False True False) ''var x = 1;'')) = [] \<and>
   stagesRun (events_of (demoRun None (demoOptions False True False) ''var x = 1;'')) =
     [Preparing, DeadCodeInjection, Converting, Obfuscating, Finalizing] \<and>
   treesFeedForward None (events_of (demoRun None (demoOptions False True False) ''var x = 1;''))"
proof -
  let ?node = "\<lparr>node_type = ''Program'', body = [''var x = 1;''], leadingComments = None\<rparr>"
  have mem: "Inspect 0 ?node
     \<in> set (events_of (obfuscate (demo None 7 1) (demoOptions False True False) ''var x = 1;''
          (initialState [] 0)))"
    unfolding demoRun_def [symmetric] by (simp add: demoRun_statement)
  have ne: "\<not> (isProgramNode (demo None 7 1) ?node \<and> body ?node = [] \<and> leadingComments ?node = None)"
    by simp
  have ok: "failedStages (events_of (demoRun None (demoOptions False True False) ''var x = 1;'')) = []"
    by (simp add: demoRun_statement)
  from stage_order [OF mem ne] mem ok show ?thesis
    unfolding demoRun_def [symmetric] by (simp add: stageOrder_def demoOptions_def)
qed

text \<open>
  C2: if the tree the parser returned is the empty program (its root is a program node,
  it has no statement and no leading comments), the run calls the transformers runner for
  no stage, logs the warning \<open>EmptySourceCode\<close> once, and calls the generator once, with
  the very reference the parser returned. \<open>transformAstTree\<close> returns that reference and
  changes nothing but the state of the logger, so the objects behind it are as the
  parser left them.
\<close>

theorem empty_program_short_circuit:
  assumes "Inspect t node \<in> set (events_of (obfuscate c options sourceCode s))"
    and "isProgramNode c node" and "body node = []" and "leadingComments node = None"
  shows "stagesRun (events_of (obfuscate c options sourceCode s)) = [] \<and>
         warnings (events_of (obfuscate c options sourceCode s)) = [(EmptySourceCode, None)] \<and>
         Parse sourceCode \<lparr>attachComment = True, loc = sourceMap options\<rparr> (Inr t)
           \<in> set (events_of (obfuscate c options sourceCode s)) \<and>
         map fst (generateCalls (events_of (obfuscate c options sourceCode s))) = [t] \<and>
         transformAstTree c options t (afterParse c options sourceCode s) =
           (Inr t,
            (afterParse c options sourceCode s)
              \<lparr>logger := warn c EmptySourceCode None (logger (afterParse c options sourceCode s))\<rparr>,
            [Inspect t node, LogWarn EmptySourceCode None])"
proof -
  let ?s1 = "afterParse c options sourceCode s"
  let ?E = "events_of (transformAstTree c options t ?s1)"
  from assms(1) obtain rest where
    node: "node = node_at c (world ?s1) t"
    and ev: "events_of (obfuscate c options sourceCode s) =
       prelude c s @ Parse sourceCode \<lparr>attachComment = True, loc = sourceMap options\<rparr> (Inr t)
         # ?E @ rest"
    and rest: "stagesRun rest = []" "warnings rest = []"
    and gen: "map fst (generateCalls rest) =
       (case result_of (transformAstTree c options t ?s1) of Inr t' \<Rightarrow> [t'] | Inl e \<Rightarrow> [])"
    by (rule inspected_run)
  from assms(2-4) node have em: "isEmptyAstTree c (node_at c (world ?s1) t)"
    by (simp add: isEmptyAstTree_iff)
  note T = transformAstTree_empty [OF em, of options]
  show ?thesis
    using gen by (simp add: ev rest T node)
qed

theorem empty_program_short_circuit_witness:
  "Inspect 0 \<lparr>node_type = ''Program'', body = [], leadingComments = None\<rparr>
     \<in> set (events_of (demoRun None (demoOptions True True True) [])) \<and>
   stagesRun (events_of (demoRun None (demoOptions True True True) [])) = [] \<and>
   warnings (events_of (demoRun None (demoOptions True True True) [])) =
     [(EmptySourceCode, None)] \<and>
   Parse [] \<lparr>attachComment = True, loc = True\<rparr> (Inr 0)
     \<in> set (events_of (demoRun None (demoOptions True True True) [])) \<and>
   map fst (generateCalls (events_of (demoRun None (demoOptions True True True) []))) = [0]"
proof -
  let ?node = "\<lparr>node_type = ''Program'', body = ([] :: string list), leadingComments = None\<rparr>"
  have mem: "Inspect 0 ?node
     \<in> set (events_of (obfuscate (demo None 7 1) (demoOptions True True True) []
          (initialState [] 0)))"
    unfolding demoRun_def [symmetric] by (simp add: demoRun_empty)
  have em: "isProgramNode (demo None 7 1) ?node" "body ?node = []" "leadingComments ?node = None"
    by (simp_all add: demo_def)
  from empty_program_short_circuit [OF mem em] mem show ?thesis
    unfolding demoRun_def [symmetric] by (simp add: demoOptions_def)
qed

text \<open>
  C3, as the code has it: if the transformers runner throws in a stage, the run fails
  with the very value that was thrown. \<open>obfuscate\<close> and \<open>runTransformationStage\<close> catch
  nothing and attach nothing: the failing stage is named by the info event logged just
  before the failing call, which is the last call of the run, not by the failure. The
  generator and the source map corrector are not called, so there is no result, and no
  success is logged.
\<close>

theorem transformer_failure_propagates:
  assumes "Transform t l st (Inl e) \<in> set (events_of (obfuscate c options sourceCode s))"
  shows "result_of (obfuscate c options sourceCode s) = Inl e \<and>
         failedStages (events_of (obfuscate c options sourceCode s)) = [st] \<and>
         (\<exists>before. events_of (obfuscate c options sourceCode s) =
            before @ [LogInfo TransformationStage (Some (StageValue st)),
                      Transform t l st (Inl e)]) \<and>
         generateCalls (events_of (obfuscate c options sourceCode s)) = [] \<and>
         correctCalls (events_of (obfuscate c options sourceCode s)) = [] \<and>
         successEvents (events_of (obfuscate c options sourceCode s)) = []"
proof (cases rule: obfuscate_cases [of c sourceCode options s])
  case (parse_failed e')
  with assms show ?thesis by (auto simp: prelude_def)
next
  case (transform_failed t1 e')
  let ?po = "\<lparr>attachComment = True, loc = sourceMap options\<rparr>"
  from transformAstTree_thrown [OF transform_failed(2)] obtain pre t0 st' where
    ev: "events_of (transformAstTree c options t1 (afterParse c options sourceCode s)) =
        pre @ [LogInfo TransformationStage (Some (StageValue st')),
               Transform t0 transformersList st' (Inl e')]"
    and pre: "failedStages pre = []" "successEvents pre = []"
    by blast
  from transformAstTree_quiet [of c options t1 "afterParse c options sourceCode s"]
  have quiet: "generateCalls pre = []" "correctCalls pre = []"
    by (simp_all add: ev)
  have "Transform t l st (Inl e) \<notin> set pre"
    using failed_transform_mem [of t l st e pre] pre by auto
  with assms have eq: "t = t0" "l = transformersList" "st = st'" "e = e'"
    by (auto simp: transform_failed(4) ev prelude_def)
  have "events_of (obfuscate c options sourceCode s) =
      (prelude c s @ Parse sourceCode ?po (Inr t1) # pre) @
        [LogInfo TransformationStage (Some (StageValue st)), Transform t l st (Inl e)]"
    by (simp add: transform_failed(4) ev eq)
  then have "\<exists>before. events_of (obfuscate c options sourceCode s) =
      before @ [LogInfo TransformationStage (Some (StageValue st)), Transform t l st (Inl e)]"
    by blast
  then show ?thesis
    by (simp add: transform_failed(3) eq) (simp add: transform_failed(4) ev pre quiet)
next
  case (generate_failed t1 t' e')
  from assms have "st \<in> set (failedStages (events_of (obfuscate c options sourceCode s)))"
    by (rule failed_transform_mem)
  then show ?thesis
    using transformAstTree_failed [of c options t1 "afterParse c options sourceCode s"]
    by (simp add: generate_failed generateCode_quiet)
next
  case (completed t1 t' out res)
  from assms have "st \<in> set (failedStages (events_of (obfuscate c options sourceCode s)))"
    by (rule failed_transform_mem)
  then show ?thesis
    using transformAstTree_failed [of c options t1 "afterParse c options sourceCode s"]
    by (simp add: completed generateCode_quiet)
qed

theorem transformer_failure_propagates_witness:
  "Transform 2 transformersList Obfuscating (Inl ''fault'')
     \<in> set (events_of (demoRun (Some Obfuscating) (demoOptions False False False) ''var x = 1;'')) \<and>
   result_of (demoRun (Some Obfuscating) (demoOptions False False False) ''var x = 1;'') =
     Inl ''fault'' \<and>
   failedStages (events_of (demoRun (Some Obfuscating) (demoOptions False False False)
     ''var x = 1;'')) = [Obfuscating] \<and>
   correctCalls (events_of (demoRun (Some Obfuscating) (demoOptions False False False)
     ''var x = 1;'')) = [] \<and>
   successEvents (events_of (demoRun (Some Obfuscating) (demoOptions False False False)
     ''var x = 1;'')) = []"
proof -
  have mem: "Transform 2 transformersList Obfuscating (Inl ''fault'')
     \<in> set (events_of (obfuscate (demo (Some Obfuscating) 7 1) (demoOptions False False False)
          ''var x = 1;'' (initialState [] 0)))"
    unfolding demoRun_def [symmetric] by (simp add: demoRun_fault)
  from transformer_failure_propagates [OF mem] mem show ?thesis
    unfolding demoRun_def [symmetric] by simp
qed

text \<open>
  The failure does not name the stage: a runner that throws the same value in Preparing
  and in Obfuscating makes the two runs fail with the same value.
\<close>

theorem transform_error_names_no_stage:
  "failedStages (events_of (demoRun (Some Preparing) (demoOptions False False False)
     ''var x = 1;'')) = [Preparing] \<and>
   failedStages (events_of (demoRun (Some Obfuscating) (demoOptions False False False)
     ''var x = 1;'')) = [Obfuscating] \<and>
   result_of (demoRun (Some Preparing) (demoOptions False False False) ''var x = 1;'') =
     Inl ''fault'' \<and>
   result_of (demoRun (Some Obfuscating) (demoOptions False False False) ''var x = 1;'') =
     Inl ''fault''"
  by (simp add: demoRun_fault demoRun_fault_early)

text \<open>
  C4: in every run the mapping handed to the source map corrector is a string, made
  from what the generator returned: the text of the mapping object when there is one,
  the empty string when the field is null or undefined (\<open>normalizedMap\<close>). The corrector
  is called once for each output the generator returned, with its code and that string.
  In particular: when no source map is asked for, the static \<open>escodegenParams\<close> sets no
  \<open>sourceMap\<close> field, and the generator returns a mapping object only for options that
  set one, the corrector is handed the empty string.
\<close>

theorem mapping_field_is_text:
  "correctCalls (events_of (obfuscate c options sourceCode s)) =
     map (\<lambda>out. (code out, normalizedMap c (map_field out)))
       (generated (events_of (obfuscate c options sourceCode s))) \<and>
   (\<not> sourceMap options \<and> generate_sourceMap (objs s escodegenParams_ref) = None \<and>
    (\<forall>t opts w out m. generate_sourceMap opts = None \<longrightarrow>
        fst (generate c t opts w) = Inr out \<longrightarrow> map_field out \<noteq> MapObject m) \<longrightarrow>
    (\<forall>call \<in> set (correctCalls (events_of (obfuscate c options sourceCode s))). snd call = []))"
proof (cases rule: obfuscate_cases [of c sourceCode options s])
  case (parse_failed e)
  then show ?thesis by simp
next
  case (transform_failed t e)
  then show ?thesis by (simp add: transformAstTree_quiet)
next
  case (generate_failed t t' e)
  then show ?thesis
    by (simp add: transformAstTree_quiet generateCode_events generateCode_result split: sum.splits)
next
  case (completed t t' out res)
  let ?s2 = "state_of (transformAstTree c options t (afterParse c options sourceCode s))"
  let ?arg = "generatorArgument options sourceCode (objs ?s2 escodegenParams_ref)"
  from completed(3) obtain raw where
    raw: "fst (generate c t' ?arg (world ?s2)) = Inr raw"
    and out: "out = \<lparr>code = code raw, map_field = normalizedMap c (map_field raw)\<rparr>"
    by (auto simp: generateCode_result split: sum.splits)
  have calls: "correctCalls (events_of (obfuscate c options sourceCode s)) =
      [(code raw, normalizedMap c (map_field raw))]"
    and gen: "generated (events_of (obfuscate c options sourceCode s)) = [raw]"
    by (simp_all add: completed(5) transformAstTree_quiet generateCode_events raw out)
  have static: "objs ?s2 escodegenParams_ref = objs s escodegenParams_ref"
    by (simp add: transformAstTree_store)
  have "normalizedMap c (map_field raw) = []"
    if "\<not> sourceMap options" "generate_sourceMap (objs s escodegenParams_ref) = None"
      "\<forall>t opts w out m. generate_sourceMap opts = None \<longrightarrow>
        fst (generate c t opts w) = Inr out \<longrightarrow> map_field out \<noteq> MapObject m"
  proof -
    from that(1,2) have "generate_sourceMap ?arg = None"
      by (simp add: generatorArgument_def static)
    with that(3) raw have "\<And>m. map_field raw \<noteq> MapObject m" by blast
    then show ?thesis by (cases "map_field raw") (auto simp: normalizedMap_def)
  qed
  then show ?thesis by (simp add: calls gen)
qed

theorem mapping_field_is_text_witness:
  "correctCalls (events_of (demoRun None (demoOptions True False False) ''var x = 1;'')) =
     [(''var x = 1;'', ''map of var x = 1;'')] \<and>
   correctCalls (events_of (demoRun None (demoOptions False False False) ''var x = 1;'')) =
     [(''var x = 1;'', [])]"
proof -
  have gen: "generated (events_of (demoRun None (demoOptions True False False) ''var x = 1;'')) =
      [\<lparr>code = ''var x = 1;'', map_field = MapObject ''var x = 1;''\<rparr>]"
    by (simp add: demoRun_defs)
  have serialized: "normalizedMap (demo None 7 1) (MapObject ''var x = 1;'') = ''map of var x = 1;''"
    by (simp add: normalizedMap_def demo_def)
  have one: "length (correctCalls (events_of (demoRun None (demoOptions False False False)
      ''var x = 1;''))) = 1"
    and texts: "map fst (correctCalls (events_of (demoRun None (demoOptions False False False)
      ''var x = 1;''))) = [''var x = 1;'']"
    by (simp_all add: demoRun_defs)
  have off: "\<not> sourceMap (demoOptions False False False)"
    "generate_sourceMap (objs (initialState ([] :: string Program list) (0 :: int))
        escodegenParams_ref) = None"
    "\<forall>t opts w out m. generate_sourceMap opts = None \<longrightarrow>
        fst (generate (demo None 7 1) t opts w) = Inr out \<longrightarrow> map_field out \<noteq> MapObject m"
    by (auto simp: demo_defs)
  from mapping_field_is_text [of "demo None 7 1" "demoOptions True False False" "''var x = 1;''"
      "initialState [] 0"]
  have first: "correctCalls (events_of (demoRun None (demoOptions True False False)
      ''var x = 1;'')) = [(''var x = 1;'', ''map of var x = 1;'')]"
    unfolding demoRun_def [symmetric] by (simp add: gen serialized)
  from mapping_field_is_text [of "demo None 7 1" "demoOptions False False False" "''var x = 1;''"
      "initialState [] 0"] off
  have "\<forall>call \<in> set (correctCalls (events_of (demoRun None (demoOptions False False False)
      ''var x = 1;''))). snd call = []"
    unfolding demoRun_def [symmetric] by blast
  with one texts have "correctCalls (events_of (demoRun None (demoOptions False False False)
      ''var x = 1;'')) = [(''var x = 1;'', [])]"
    by (cases "correctCalls (events_of (demoRun None (demoOptions False False False)
      ''var x = 1;''))") auto
  with first show ?thesis by simp
qed




text \<open>
  C6: for every source text, the parser is called with leading-comment attachment
  enabled, and with source-location tracking enabled if and only if the \<open>sourceMap\<close>
  option is set. Every run calls the parser exactly once, with the source text and these
  options.
\<close>

theorem parser_options:
  "parseCalls (events_of (obfuscate c options sourceCode s)) =
     [(sourceCode, \<lparr>attachComment = True, loc = sourceMap options\<rparr>)]"
  by (cases rule: obfuscate_cases [of c sourceCode options s])
     (simp_all add: transformAstTree_quiet generateCode_events)

theorem parser_options_witness:
  "parseCalls (events_of (obfuscate (demo None 7 1) (demoOptions True False False)
      ''var x = 1;'' (initialState [] 0))) =
     [(''var x = 1;'', \<lparr>attachComment = True, loc = True\<rparr>)]"
  using parser_options [of "demo None 7 1" "demoOptions True False False" "''var x = 1;''"
      "initialState [] 0"]
  by (simp add: demoOptions_def)

text \<open>
  C7: if the parser rejects the source text, the run fails with the value the parser
  threw, as it was thrown. The parser was called once (no retry), its call is the last
  event of the run, the tree is never read, no stage runs, the generator and the source
  map corrector are not called and no success is logged.
\<close>

theorem parse_error_surfaces:
  assumes "Parse src po (Inl e) \<in> set (events_of (obfuscate c options sourceCode s))"
  shows "result_of (obfuscate c options sourceCode s) = Inl e \<and>
         parseCalls (events_of (obfuscate c options sourceCode s)) = [(sourceCode, po)] \<and>
         last (events_of (obfuscate c options sourceCode s)) = Parse src po (Inl e) \<and>
         inspections (events_of (obfuscate c options sourceCode s)) = [] \<and>
         stagesRun (events_of (obfuscate c options sourceCode s)) = [] \<and>
         generateCalls (events_of (obfuscate c options sourceCode s)) = [] \<and>
         correctCalls (events_of (obfuscate c options sourceCode s)) = [] \<and>
         successEvents (events_of (obfuscate c options sourceCode s)) = []"
proof (cases rule: obfuscate_cases [of c sourceCode options s])
  case (parse_failed e')
  from assms have "Parse src po (Inl e) = Parse sourceCode \<lparr>attachComment = True, loc = sourceMap options\<rparr> (Inl e')"
    by (auto simp: parse_failed(3) prelude_def)
  then show ?thesis by (simp add: parse_failed)
next
  case (transform_failed t e')
  from assms have "Parse src po (Inl e) \<in> set (events_of (transformAstTree c options t (afterParse c options sourceCode s)))"
    by (auto simp: transform_failed(4) prelude_def)
  from parse_event_mem [OF this] show ?thesis by (simp add: transformAstTree_quiet)
next
  case (generate_failed t t' e')
  from assms have "Parse src po (Inl e) \<in> set (events_of (transformAstTree c options t (afterParse c options sourceCode s)))"
    by (auto simp: generate_failed(5) prelude_def generateCode_events)
  from parse_event_mem [OF this] show ?thesis by (simp add: transformAstTree_quiet)
next
  case (completed t t' out res)
  from assms have "Parse src po (Inl e) \<in> set (events_of (transformAstTree c options t (afterParse c options sourceCode s)))"
    by (auto simp: completed(5) prelude_def generateCode_events)
  from parse_event_mem [OF this] show ?thesis by (simp add: transformAstTree_quiet)
qed

theorem parse_error_surfaces_witness:
  "Parse ''('' \<lparr>attachComment = True, loc = False\<rparr> (Inl ''Unexpected end of input'')
     \<in> set (events_of (obfuscate (demo None 7 1) (demoOptions False True True) ''(''
          (initialState [] 0))) \<and>
   result_of (obfuscate (demo None 7 1) (demoOptions False True True) ''('' (initialState [] 0))
     = Inl ''Unexpected end of input'' \<and>
   parseCalls (events_of (obfuscate (demo None 7 1) (demoOptions False True True) ''(''
     (initialState [] 0))) = [(''('', \<lparr>attachComment = True, loc = False\<rparr>)] \<and>
   stagesRun (events_of (obfuscate (demo None 7 1) (demoOptions False True True) ''(''
     (initialState [] 0))) = [] \<and>
   generateCalls (events_of (obfuscate (demo None 7 1) (demoOptions False True True) ''(''
     (initialState [] 0))) = [] \<and>
   correctCalls (events_of (obfuscate (demo None 7 1) (demoOptions False True True) ''(''
     (initialState [] 0))) = []"
proof -
  have run: "events_of (obfuscate (demo None 7 1) (demoOptions False True True) ''(''
      (initialState [] 0)) =
    [DateNow 1000, LogInfo Version (Some (StringValue ''0.18.1'')),
     LogInfo ObfuscationStarted None, GetSeed (NumberValue 7),
     LogInfo RandomGeneratorSeed (Some (NumberValue 7)),
     Parse ''('' \<lparr>attachComment = True, loc = False\<rparr> (Inl ''Unexpected end of input'')]"
    by (simp add: run_defs andThen_simps demo_defs)
  have "Parse ''('' \<lparr>attachComment = True, loc = False\<rparr> (Inl ''Unexpected end of input'')
     \<in> set (events_of (obfuscate (demo None 7 1) (demoOptions False True True) ''(''
          (initialState [] 0)))"
    by (simp add: run)
  from this parse_error_surfaces [OF this] show ?thesis by simp
qed




text \<open>
  C9: the short-circuit is taken exactly when the three conditions hold together. For
  the tree a run reads: the warning is logged if and only if the root is a program node,
  the body is empty and no leading comments are attached, and no stage is run if and
  only if the same holds. In particular a tree whose root is not a program node, and a
  program without statements that carries leading comments, get no warning and go through
  the stages: Preparing first, then along \<open>stageOrder\<close>, all of it when no stage throws.
  Leading comments are attached when the field \<open>leadingComments\<close> is set.
\<close>

theorem short_circuit_exactly_when_empty:
  assumes "Inspect t node \<in> set (events_of (obfuscate c options sourceCode s))"
  shows "(warnings (events_of (obfuscate c options sourceCode s)) = [(EmptySourceCode, None)]
            \<longleftrightarrow> isProgramNode c node \<and> body node = [] \<and> leadingComments node = None) \<and>
         (stagesRun (events_of (obfuscate c options sourceCode s)) = []
            \<longleftrightarrow> isProgramNode c node \<and> body node = [] \<and> leadingComments node = None) \<and>
         (\<not> isProgramNode c node \<or> (body node = [] \<and> leadingComments node \<noteq> None) \<longrightarrow>
            warnings (events_of (obfuscate c options sourceCode s)) = [] \<and>
            hd (stagesRun (events_of (obfuscate c options sourceCode s))) = Preparing \<and>
            prefix (stagesRun (events_of (obfuscate c options sourceCode s))) (stageOrder options) \<and>
            (failedStages (events_of (obfuscate c options sourceCode s)) = [] \<longrightarrow>
               stagesRun (events_of (obfuscate c options sourceCode s)) = stageOrder options))"
proof -
  let ?s1 = "afterParse c options sourceCode s"
  let ?E = "events_of (transformAstTree c options t ?s1)"
  from assms(1) obtain rest where
    node: "node = node_at c (world ?s1) t"
    and ev: "events_of (obfuscate c options sourceCode s) =
       prelude c s @ Parse sourceCode \<lparr>attachComment = True, loc = sourceMap options\<rparr> (Inr t)
         # ?E @ rest"
    and rest: "stagesRun rest = []" "failedStages rest = []" "warnings rest = []"
    by (rule inspected_run)
  have sr: "stagesRun (events_of (obfuscate c options sourceCode s)) = stagesRun ?E"
    and fs: "failedStages (events_of (obfuscate c options sourceCode s)) = failedStages ?E"
    and wa: "warnings (events_of (obfuscate c options sourceCode s)) = warnings ?E"
    by (simp_all add: ev rest)
  show ?thesis
  proof (cases "isEmptyAstTree c node")
    case True
    then have "isEmptyAstTree c (node_at c (world ?s1) t)" using node by simp
    from transformAstTree_empty [OF this, of options] True show ?thesis
      by (simp add: sr fs wa isEmptyAstTree_iff)
  next
    case False
    then have ne: "\<not> isEmptyAstTree c (node_at c (world ?s1) t)" using node by simp
    have pre: "prefix (stagesRun ?E) (stageOrder options)" and nonempty: "stagesRun ?E \<noteq> []"
      using ne by (rule transformAstTree_prefix)+
    have all: "stagesRun ?E = stageOrder options" if "failedStages ?E = []"
    proof (cases "result_of (transformAstTree c options t ?s1)")
      case (Inl e)
      with that transformAstTree_failed [of c options t ?s1] show ?thesis by simp
    next
      case (Inr t')
      with ne show ?thesis by (rule transformAstTree_returned)
    qed
    have "warnings ?E = []"
      using ne by (simp add: transformAstTree_warnings)
    with False pre nonempty all stageOrder_hd [OF pre nonempty] show ?thesis
      by (simp add: sr fs wa isEmptyAstTree_iff)
  qed
qed

theorem short_circuit_exactly_when_empty_witness:
  "Inspect 0 \<lparr>node_type = ''Program'', body = [], leadingComments = Some [''// c'']\<rparr>
     \<in> set (events_of (demoRun None (demoOptions False False False) ''// c'')) \<and>
   warnings (events_of (demoRun None (demoOptions False False False) ''// c'')) = [] \<and>
   failedStages (events_of (demoRun None (demoOptions False False False) ''// c'')) = [] \<and>
   stagesRun (events_of (demoRun None (demoOptions False False False) ''// c'')) =
     [Preparing, Converting, Obfuscating, Finalizing]"
proof -
  let ?node = "\<lparr>node_type = ''Program'', body = [], leadingComments = Some [''// c'']\<rparr>"
  have mem: "Inspect 0 ?node
     \<in> set (events_of (obfuscate (demo None 7 1) (demoOptions False False False) ''// c''
          (initialState [] 0)))"
    unfolding demoRun_def [symmetric] by (simp add: demoRun_comment)
  have ok: "failedStages (events_of (demoRun None (demoOptions False False False) ''// c'')) = []"
    by (simp add: demoRun_comment)
  from short_circuit_exactly_when_empty [OF mem] mem ok show ?thesis
    unfolding demoRun_def [symmetric] by (simp add: stageOrder_def demoOptions_def)
qed

text \<open>
  C10: \<open>generateCode\<close> does not change the static \<open>escodegenParams\<close>. With the static
  object in the store (its reference is below \<open>next_ref\<close>), every object that exists
  before the call holds the same fields after it; the source map fields and \<open>format\<close>
  are written to fresh copies, and the generator is handed what the second copy holds:
  the fields of the static object with those fields added (\<open>generatorArgument\<close>).
  The same is true of a whole run of \<open>obfuscate\<close>, after which the static object is
  still in the store, so it is true of every later run as well.
\<close>

theorem static_params_untouched:
  assumes "escodegenParams_ref < next_ref s"
  shows "objs (state_of (generateCode c options sourceCode astTree s)) escodegenParams_ref =
           objs s escodegenParams_ref \<and>
         (\<forall>r. r < next_ref s \<longrightarrow>
            objs (state_of (generateCode c options sourceCode astTree s)) r = objs s r) \<and>
         map snd (generateCalls (events_of (generateCode c options sourceCode astTree s))) =
           [objs (state_of (generateCode c options sourceCode astTree s)) (Suc (next_ref s))] \<and>
         map snd (generateCalls (events_of (generateCode c options sourceCode astTree s))) =
           [generatorArgument options sourceCode (objs s escodegenParams_ref)] \<and>
         objs (state_of (obfuscate c options sourceCode s)) escodegenParams_ref =
           objs s escodegenParams_ref \<and>
         escodegenParams_ref < next_ref (state_of (obfuscate c options sourceCode s))"
proof -
  from obfuscate_store [of s c options sourceCode] assms
  have "objs (state_of (obfuscate c options sourceCode s)) escodegenParams_ref =
           objs s escodegenParams_ref"
    and "escodegenParams_ref < next_ref (state_of (obfuscate c options sourceCode s))"
    by auto
  moreover have "map snd (generateCalls (events_of (generateCode c options sourceCode astTree s))) =
      [generatorArgument options sourceCode (objs s escodegenParams_ref)]"
    by (simp add: generateCode_events)
  ultimately show ?thesis
    using assms by (simp add: generateCode_old_objects generateCode_fresh [symmetric])
qed

theorem static_params_untouched_witness:
  "escodegenParams_ref < next_ref (initialState ([] :: string Program list) (0 :: int)) \<and>
   objs (state_of (demoRun None (demoOptions True False False) ''var x = 1;''))
     escodegenParams_ref = escodegenParams \<and>
   map snd (generateCalls (events_of (demoRun None (demoOptions True False False)
     ''var x = 1;''))) =
     [escodegenParams
        \<lparr>generate_sourceMap := Some ''sourceMap'', sourceContent := Some ''var x = 1;'',
         format := Some \<lparr>format_compact = True\<rparr>\<rparr>]"
proof -
  have alloc: "escodegenParams_ref < next_ref (initialState ([] :: string Program list) (0 :: int))"
    by (simp add: initialState_def)
  have before: "objs (initialState ([] :: string Program list) (0 :: int)) escodegenParams_ref =
      escodegenParams"
    by (simp add: initialState_def)
  have calls: "map snd (generateCalls (events_of (demoRun None (demoOptions True False False)
     ''var x = 1;''))) =
     [escodegenParams
        \<lparr>generate_sourceMap := Some ''sourceMap'', sourceContent := Some ''var x = 1;'',
         format := Some \<lparr>format_compact = True\<rparr>\<rparr>]"
    by (simp add: demoRun_defs)
  from static_params_untouched [OF alloc, of "demo None 7 1" "demoOptions True False False"
      "''var x = 1;''"] alloc calls
  show ?thesis
    unfolding demoRun_def [symmetric] by (simp add: before)
qed

end
